theory Spec2Isabelle
  imports Main "HOL-Library.AList" "HOL-Library.Char_ord" "HOL-Library.List_Lexorder"
begin

section \<open>The fragment of pandas the two scrapers use\<close>

text \<open>
  A cell of a DataFrame is \<open>None\<close>/\<open>NaN\<close> (\<open>Null\<close>), a scraped text (\<open>Str\<close>) or a number
  (\<open>Num\<close>, the \<open>Year\<close> stamp). A Python dict is an association list in insertion order,
  written with \<open>AList.update\<close> (an existing key keeps its place, a new key goes last).
  A DataFrame is its column index and its rows; each row carries its column names.
\<close>

datatype cell = Null | Str string | Num int

type_synonym row = "(string \<times> cell) list"

record dataframe =
  columns :: "string list"
  rows :: "row list"

datatype error = ValueError string | TimeoutException | NoSuchElementException | KeyError

text \<open>Reading one field of a row; a field the row does not have reads as \<open>NaN\<close>.\<close>

definition lookup :: "row \<Rightarrow> string \<Rightarrow> cell" where
  "lookup r c = (case map_of r c of Some v \<Rightarrow> v | None \<Rightarrow> Null)"

definition reindex :: "string list \<Rightarrow> row \<Rightarrow> row" where
  "reindex cols r = map (\<lambda>c. (c, lookup r c)) cols"

text \<open>\<open>DataFrame.empty\<close>: an axis of length 0.\<close>

definition empty_df :: "dataframe \<Rightarrow> bool" where
  "empty_df df = (rows df = [] \<or> columns df = [])"

text \<open>\<open>df[c] = v\<close> for a scalar \<open>v\<close>: overwrite the column, or add it at the right.\<close>

definition set_col :: "string \<Rightarrow> cell \<Rightarrow> dataframe \<Rightarrow> dataframe" where
  "set_col c v df =
     \<lparr>columns = (if c \<in> set (columns df) then columns df else columns df @ [c]),
      rows = map (AList.update c v) (rows df)\<rparr>"

text \<open>\<open>df[cols]\<close>: the listed columns in the listed order; a missing label raises.\<close>

definition select :: "string list \<Rightarrow> dataframe \<Rightarrow> error + dataframe" where
  "select cols df =
     (if set cols \<subseteq> set (columns df)
      then Inr \<lparr>columns = cols, rows = map (reindex cols) (rows df)\<rparr>
      else Inl KeyError)"

text \<open>\<open>pd.concat([a, b], ignore_index=True)\<close>: outer join of the columns, rows of \<open>a\<close> first.\<close>

definition concat_df :: "dataframe \<Rightarrow> dataframe \<Rightarrow> dataframe" where
  "concat_df a b =
     (let cols = columns a @ filter (\<lambda>c. c \<notin> set (columns a)) (columns b)
      in \<lparr>columns = cols, rows = map (reindex cols) (rows a @ rows b)\<rparr>)"

text \<open>\<open>for col in cols: if col not in df.columns: df[col] = None\<close>\<close>

definition ensure_columns :: "string list \<Rightarrow> dataframe \<Rightarrow> dataframe" where
  "ensure_columns cols df =
     fold (\<lambda>col d. if col \<notin> set (columns d) then set_col col Null d else d) cols df"

text \<open>
  Lines 210-221 of source A, 213-224 of source B. The persisted sheet is \<open>None\<close> when the
  file is absent (or cannot be read); a sheet read back empty, or with no columns, is dropped.
\<close>

definition read_existing :: "dataframe option \<Rightarrow> dataframe option" where
  "read_existing store =
     (case store of None \<Rightarrow> None
      | Some ex \<Rightarrow> if empty_df ex \<or> length (columns ex) = 0 then None else Some ex)"

text \<open>
  \<open>year_to_append = df['Year'].iloc[0] if len(df) > 0 else None\<close>, then, unless it is
  \<open>None\<close>, \<open>existing_df = existing_df[existing_df['Year'] != year_to_append]\<close>.
\<close>

definition year_to_append :: "dataframe \<Rightarrow> cell" where
  "year_to_append df = (if length (rows df) > 0 then lookup (hd (rows df)) ''Year'' else Null)"

definition drop_year :: "dataframe \<Rightarrow> dataframe \<Rightarrow> dataframe" where
  "drop_year df existing =
     (if ''Year'' \<in> set (columns df) \<and> ''Year'' \<in> set (columns existing)
      then (let y = year_to_append df
            in if y \<noteq> Null
               then existing\<lparr>rows := filter (\<lambda>r. lookup r ''Year'' \<noteq> y) (rows existing)\<rparr>
               else existing)
      else existing)"

section \<open>Source A (battorvikScraper.py)\<close>

definition desired_columns :: "string list" where
  "desired_columns =
     [''Rk'', ''Player'', ''Class'', ''Team'', ''Conf'', ''Min%'', ''PRPG!'', ''BPM'', ''ORtg'',
      ''Usg'', ''eFG'', ''TS'', ''OR'', ''DR'', ''Ast'', ''TO'', ''Blk'', ''Stl'', ''FTR'', ''2P'',
      ''3P/100'', ''3P'']"

text \<open>
  \<open>BartTorvikScraper.append_to_excel\<close>: the argument \<open>store\<close> is the sheet on disk before the
  call, the result is the sheet after it (the whole sheet is overwritten).
\<close>

definition append_to_excel_A :: "dataframe option \<Rightarrow> dataframe \<Rightarrow> error + dataframe option" where
  "append_to_excel_A store df0 =
     (let desired_cols_with_year = desired_columns @ [''Year'']
      in case select desired_cols_with_year (ensure_columns desired_cols_with_year df0) of
           Inl e \<Rightarrow> Inl e
         | Inr df \<Rightarrow>
            (case read_existing store of
               None \<Rightarrow> Inr (Some df)
             | Some existing0 \<Rightarrow>
                 if empty_df existing0 then Inr (Some df)
                 else
                   (case select desired_cols_with_year
                           (ensure_columns desired_cols_with_year existing0) of
                      Inl e \<Rightarrow> Inl e
                    | Inr existing \<Rightarrow> Inr (Some (concat_df (drop_year df existing) df)))))"

section \<open>Notions used in the statements\<close>

text \<open>
  A DataFrame is rectangular by construction: every row has exactly the columns of the frame,
  in their order. The model's rows carry their names, so this is a predicate; it is assumed of
  the frames that are read and proved of the frames that are written.
\<close>

definition rectangular :: "dataframe \<Rightarrow> bool" where
  "rectangular df = list_all (\<lambda>r. map fst r = columns df) (rows df)"

text \<open>The persisted sheet, when there is one, is rectangular.\<close>

definition stored_ok :: "dataframe option \<Rightarrow> bool" where
  "stored_ok store = (case store of None \<Rightarrow> True | Some ex \<Rightarrow> rectangular ex)"

section \<open>Source B (nbaScraper.py): the merge\<close>

definition priority_cols :: "string list" where
  "priority_cols = [''RK'', ''Player'', ''Team'']"

text \<open>
  Lines 239-242, and again 259-262 with \<open>df.columns\<close> for \<open>all_columns\<close>. Python's \<open>sorted\<close>
  on strings is the lexicographic order on code points, here on bytes.
\<close>

definition column_order_of :: "string list \<Rightarrow> string list" where
  "column_order_of all_columns =
     (let other_cols = sort (filter (\<lambda>col. col \<notin> set priority_cols \<and> col \<noteq> ''Year'') all_columns);
          column_order = priority_cols @ other_cols @
                         (if ''Year'' \<in> set all_columns then [''Year''] else [])
      in filter (\<lambda>col. col \<in> set all_columns) column_order)"

text \<open>The \<open>else\<close> branch, lines 257-263: no usable sheet, the new records are written.\<close>

definition write_fresh_B :: "dataframe \<Rightarrow> error + dataframe option" where
  "write_fresh_B df =
     (case select (column_order_of (columns df)) df of
        Inl e \<Rightarrow> Inl e
      | Inr combined \<Rightarrow> Inr (Some combined))"

text \<open>
  \<open>NBAScraper.append_to_excel\<close>: with an empty frame nothing is written and the sheet stays
  as it was.
\<close>

definition append_to_excel_B :: "dataframe option \<Rightarrow> dataframe \<Rightarrow> error + dataframe option" where
  "append_to_excel_B store df0 =
     (if empty_df df0 then Inr store
      else case read_existing store of
        None \<Rightarrow> write_fresh_B df0
      | Some existing0 \<Rightarrow>
          if empty_df existing0 then write_fresh_B df0
          else
            (let all_columns = sort (remdups (columns df0 @ columns existing0));
                 df1 = ensure_columns all_columns df0;
                 existing1 = ensure_columns all_columns existing0;
                 column_order = column_order_of all_columns
             in case select column_order df1 of
                  Inl e \<Rightarrow> Inl e
                | Inr df \<Rightarrow>
                   (case select column_order existing1 of
                      Inl e \<Rightarrow> Inl e
                    | Inr existing \<Rightarrow> Inr (Some (concat_df (drop_year df existing) df)))))"

text \<open>Rows brought to a column order, a missing field reading null.\<close>

definition normalise :: "string list \<Rightarrow> row list \<Rightarrow> dataframe" where
  "normalise cols rs = \<lparr>columns = cols, rows = map (reindex cols) rs\<rparr>"

text \<open>
  The existing rows that survive a merge of the rows \<open>new\<close>: all of them when there is no
  Year to compare with, else those whose Year differs from the Year of the first new row.
\<close>

definition kept :: "string list \<Rightarrow> row list \<Rightarrow> row list \<Rightarrow> row list" where
  "kept cols new old =
     (if ''Year'' \<in> set cols \<and> new \<noteq> [] \<and> lookup (hd new) ''Year'' \<noteq> Null
      then filter (\<lambda>r. lookup r ''Year'' \<noteq> lookup (hd new) ''Year'') old
      else old)"

text \<open>What source B writes for a non-empty frame, in one expression.\<close>

definition merged_B :: "dataframe option \<Rightarrow> dataframe \<Rightarrow> dataframe" where
  "merged_B existing df =
     (case existing of
        None \<Rightarrow> normalise (column_order_of (columns df)) (rows df)
      | Some ex \<Rightarrow>
          (let co = column_order_of (sort (remdups (columns df @ columns ex)))
           in normalise co (kept co (rows df) (rows ex) @ rows df)))"

text \<open>The rows and the columns of the sheet a merge starts from, none when it is dropped.\<close>

definition existing_rows :: "dataframe option \<Rightarrow> row list" where
  "existing_rows store = (case read_existing store of None \<Rightarrow> [] | Some ex \<Rightarrow> rows ex)"

definition existing_columns :: "dataframe option \<Rightarrow> string list" where
  "existing_columns store = (case read_existing store of None \<Rightarrow> [] | Some ex \<Rightarrow> columns ex)"

text \<open>The column orders of the two merges.\<close>

definition order_A :: "string list" where
  "order_A = desired_columns @ [''Year'']"

definition order_B :: "dataframe option \<Rightarrow> dataframe \<Rightarrow> string list" where
  "order_B store df =
     column_order_of (case read_existing store of
                        None \<Rightarrow> columns df
                      | Some ex \<Rightarrow> sort (remdups (columns df @ columns ex)))"

text \<open>Example data: a persisted sheet with a 2023 row and a stale 2024 row, and new 2024 records.\<close>

definition sheet_2023 :: dataframe where
  "sheet_2023 =
     \<lparr>columns = [''RK'', ''Player'', ''Team'', ''GP'', ''Year''],
      rows = [[(''RK'', Str ''1''), (''Player'', Str ''Joel Embiid''), (''Team'', Str ''PHI''),
               (''GP'', Str ''66''), (''Year'', Num 2023)],
              [(''RK'', Str ''9''), (''Player'', Str ''Old Rerun''), (''Team'', Str ''BOS''),
               (''GP'', Str ''3''), (''Year'', Num 2024)]]\<rparr>"

definition new_2024 :: dataframe where
  "new_2024 =
     \<lparr>columns = [''RK'', ''Player'', ''Team'', ''PTS'', ''Year''],
      rows = [[(''RK'', Str ''1''), (''Player'', Str ''Luka Doncic''), (''Team'', Str ''DAL''),
               (''PTS'', Str ''33.9''), (''Year'', Num 2024)]]\<rparr>"

text \<open>Example data for source A: a persisted row with a field outside the whitelist.\<close>

definition sheet_A_2020 :: dataframe where
  "sheet_A_2020 =
     \<lparr>columns = [''Rk'', ''Player'', ''Notes'', ''Year''],
      rows = [[(''Rk'', Str ''1''), (''Player'', Str ''Zach Edey''), (''Notes'', Str ''injured''),
               (''Year'', Num 2020)]]\<rparr>"

definition new_A_2024 :: dataframe where
  "new_A_2024 =
     \<lparr>columns = [''Rk'', ''Player'', ''Year''],
      rows = [[(''Rk'', Str ''1''), (''Player'', Str ''Cooper Flagg''), (''Year'', Num 2024)]]\<rparr>"

section \<open>Source B: splitting the name cell\<close>

text \<open>
  The three patterns of \<open>extract_player_name_and_team\<close> all have the shape
  \<open>^(.+?)\<close> followed by a tail, matched with \<open>re.match\<close>. They are modelled as the
  backtracking matcher runs them: the lazy group takes one character, then one more each time
  the tail fails where it stands; the greedy \<open>[A-Z]{2,4}\<close> tries four letters, then three,
  then two; the greedy \<open>+\<close> tries another round before it stops. \<open>.\<close> does not match a
  newline, and \<open>$\<close> matches at the end and just before a newline that ends the string.
\<close>

definition is_upper :: "char \<Rightarrow> bool" where
  "is_upper c = (CHR ''A'' \<le> c \<and> c \<le> CHR ''Z'')"

definition newline :: char where
  "newline = CHR 0x0A"

text \<open>\<open>[A-Z]{2,4}\<close> at the head of \<open>s\<close>: the lengths it can take, in the order tried.\<close>

definition upper_2_4 :: "string \<Rightarrow> nat list" where
  "upper_2_4 s = filter (\<lambda>m. m \<le> length s \<and> list_all is_upper (take m s)) [4, 3, 2]"

text \<open>\<open>$\<close>\<close>

definition at_end :: "string \<Rightarrow> bool" where
  "at_end s = (s = [] \<or> s = [newline])"

text \<open>
  \<open>(?:/[A-Z]{2,4})+\<close> at the head of \<open>s\<close>: what can remain after it, in the order tried.
\<close>

fun slash_teams :: "string \<Rightarrow> string list" where
  "slash_teams [] = []"
| "slash_teams (c # t) =
     (if c = CHR ''/''
      then concat (map (\<lambda>m. slash_teams (drop m t) @ [drop m t]) (upper_2_4 t))
      else [])"

text \<open>
  The tails of the three patterns: \<open>([A-Z]{2,4}(?:/[A-Z]{2,4})+)$\<close>, \<open>([A-Z]{2,4})$\<close> and
  \<open>([A-Z]{2,4})\<close>. Each returns the text of group 2 at its first success.
\<close>

definition tail_slash :: "string \<Rightarrow> string option" where
  "tail_slash s =
     (case filter at_end (concat (map (\<lambda>m. slash_teams (drop m s)) (upper_2_4 s))) of
        [] \<Rightarrow> None
      | r # _ \<Rightarrow> Some (take (length s - length r) s))"

definition tail_team_end :: "string \<Rightarrow> string option" where
  "tail_team_end s =
     (case filter (\<lambda>m. at_end (drop m s)) (upper_2_4 s) of
        [] \<Rightarrow> None
      | m # _ \<Rightarrow> Some (take m s))"

definition tail_team :: "string \<Rightarrow> string option" where
  "tail_team s = (case upper_2_4 s of [] \<Rightarrow> None | m # _ \<Rightarrow> Some (take m s))"

text \<open>\<open>^(.+?)\<close> with group 1 already \<open>g1\<close>, then the tail: the first success.\<close>

fun lazy_prefix :: "(string \<Rightarrow> string option) \<Rightarrow> string \<Rightarrow> string \<Rightarrow> (string \<times> string) option" where
  "lazy_prefix tail g1 [] = (case tail [] of Some g2 \<Rightarrow> Some (g1, g2) | None \<Rightarrow> None)"
| "lazy_prefix tail g1 (c # cs) =
     (case tail (c # cs) of
        Some g2 \<Rightarrow> Some (g1, g2)
      | None \<Rightarrow> if c = newline then None else lazy_prefix tail (g1 @ [c]) cs)"

definition re_match :: "(string \<Rightarrow> string option) \<Rightarrow> string \<Rightarrow> (string \<times> string) option" where
  "re_match tail s =
     (case s of [] \<Rightarrow> None
      | c # cs \<Rightarrow> if c = newline then None else lazy_prefix tail [c] cs)"

text \<open>\<open>NBAScraper.extract_player_name_and_team\<close>, lines 49-72.\<close>

definition extract_player_name_and_team :: "string \<Rightarrow> string \<times> string" where
  "extract_player_name_and_team name_text =
     (if CHR ''/'' \<in> set name_text then
        (case re_match tail_slash name_text of
           Some (player_name, team) \<Rightarrow> (player_name, team)
         | None \<Rightarrow>
            (case re_match tail_team name_text of
               Some (player_name, _) \<Rightarrow> (player_name, drop (length player_name) name_text)
             | None \<Rightarrow> (name_text, '''')))
      else
        (case re_match tail_team_end name_text of
           Some (player_name, team) \<Rightarrow> (player_name, team)
         | None \<Rightarrow> (name_text, '''')))"

text \<open>
  Notions of the statements: the string ends in two, three or four uppercase letters; it has
  two adjacent uppercase letters somewhere; it does not end in a newline.
\<close>

definition ends_in_team :: "string \<Rightarrow> bool" where
  "ends_in_team s =
     list_ex (\<lambda>m. m \<le> length s \<and> list_all is_upper (drop (length s - m) s)) [2, 3, 4]"

fun upper_pair :: "string \<Rightarrow> bool" where
  "upper_pair (a # b # cs) = (is_upper a \<and> is_upper b \<or> upper_pair (b # cs))"
| "upper_pair _ = False"

definition no_final_newline :: "string \<Rightarrow> bool" where
  "no_final_newline s = (s = [] \<or> last s \<noteq> newline)"

section \<open>Pagination: the load-more loops\<close>

text \<open>
  The live page is a state \<open>'s\<close> with what the loops ask of it: whether the wait for a
  clickable load-more link succeeds (\<open>clickable\<close>; a timeout raises, and the loop's
  \<open>except\<close> leaves it), the page after a click (\<open>click\<close>; \<open>None\<close> when the click
  raises), and the number of body rows of the first table when the page has at least two
  tables (\<open>row_count\<close>; \<open>None\<close> with fewer than two tables).
\<close>

record 's page =
  clickable :: "'s \<Rightarrow> bool"
  click :: "'s \<Rightarrow> 's option"
  row_count :: "'s \<Rightarrow> nat option"

text \<open>
  Source A, lines 67-90: \<open>for i in range(max_clicks)\<close> with the iterations left as the
  recursion argument; the result is the page and \<open>clicks\<close>. The progress line printed at
  every fifth click reads the page and changes nothing.
\<close>

fun load_more_A :: "('s, 'x) page_scheme \<Rightarrow> nat \<Rightarrow> 's \<Rightarrow> nat \<Rightarrow> 's \<times> nat" where
  "load_more_A p 0 s clicks = (s, clicks)"
| "load_more_A p (Suc n) s clicks =
     (if \<not> clickable p s then (s, clicks)
      else case click p s of
             None \<Rightarrow> (s, clicks)
           | Some s' \<Rightarrow> load_more_A p n s' (clicks + 1))"

definition max_clicks_A :: nat where
  "max_clicks_A = 30"

definition paginate_A :: "('s, 'x) page_scheme \<Rightarrow> 's \<Rightarrow> 's \<times> nat" where
  "paginate_A p s = load_more_A p max_clicks_A s 0"

text \<open>
  Source B, lines 94-132: the same loop with \<open>previous_row_count\<close>, read before the click
  when the page has two tables, and compared after it.
\<close>

fun load_more_B :: "('s, 'x) page_scheme \<Rightarrow> nat \<Rightarrow> 's \<Rightarrow> nat \<Rightarrow> nat \<Rightarrow> 's \<times> nat" where
  "load_more_B p 0 s previous_row_count clicks = (s, clicks)"
| "load_more_B p (Suc n) s previous_row_count clicks =
     (if \<not> clickable p s then (s, clicks)
      else
        (let previous_row_count =
               (case row_count p s of Some k \<Rightarrow> k | None \<Rightarrow> previous_row_count)
         in case click p s of
              None \<Rightarrow> (s, clicks)
            | Some s' \<Rightarrow>
               (case row_count p s' of
                  Some current_row_count \<Rightarrow>
                    if current_row_count = previous_row_count then (s', clicks + 1)
                    else load_more_B p n s' current_row_count (clicks + 1)
                | None \<Rightarrow> load_more_B p n s' previous_row_count (clicks + 1))))"

definition max_clicks_B :: nat where
  "max_clicks_B = 20"

definition paginate_B :: "('s, 'x) page_scheme \<Rightarrow> 's \<Rightarrow> 's \<times> nat" where
  "paginate_B p s = load_more_B p max_clicks_B s 0 0"

text \<open>A page whose link never goes away and whose table grows by 50 rows a click.\<close>

definition endless_page :: "nat page" where
  "endless_page = \<lparr>clickable = (\<lambda>s. True), click = (\<lambda>s. Some (s + 50)), row_count = Some\<rparr>"

text \<open>A page whose link stays clickable but whose table stops growing at 120 rows.\<close>

definition stalled_page :: "nat page" where
  "stalled_page =
     \<lparr>clickable = (\<lambda>s. True), click = (\<lambda>s. Some (min 120 (s + 50))), row_count = Some\<rparr>"

section \<open>Extraction\<close>

text \<open>
  A string is the UTF-8 bytes of the Python \<open>str\<close>. \<open>str.strip()\<close> removes, at both ends,
  the characters for which \<open>str.isspace()\<close> holds: U+0009 to U+000D, U+001C to U+0020,
  U+0085, U+00A0, U+1680, U+2000 to U+200A, U+2028, U+2029, U+202F, U+205F and U+3000. The
  table has their encodings; a byte such as 0x85 alone is no character (it ends the
  two bytes of a letter such as U+00C5) and stays.
\<close>

definition whitespace :: "string list" where
  "whitespace =
     [[CHR 0x09], [CHR 0x0A], [CHR 0x0B], [CHR 0x0C], [CHR 0x0D],
      [CHR 0x1C], [CHR 0x1D], [CHR 0x1E], [CHR 0x1F], [CHR 0x20],
      [CHR 0xC2, CHR 0x85], [CHR 0xC2, CHR 0xA0], [CHR 0xE1, CHR 0x9A, CHR 0x80],
      [CHR 0xE2, CHR 0x80, CHR 0x80], [CHR 0xE2, CHR 0x80, CHR 0x81],
      [CHR 0xE2, CHR 0x80, CHR 0x82], [CHR 0xE2, CHR 0x80, CHR 0x83],
      [CHR 0xE2, CHR 0x80, CHR 0x84], [CHR 0xE2, CHR 0x80, CHR 0x85],
      [CHR 0xE2, CHR 0x80, CHR 0x86], [CHR 0xE2, CHR 0x80, CHR 0x87],
      [CHR 0xE2, CHR 0x80, CHR 0x88], [CHR 0xE2, CHR 0x80, CHR 0x89],
      [CHR 0xE2, CHR 0x80, CHR 0x8A], [CHR 0xE2, CHR 0x80, CHR 0xA8],
      [CHR 0xE2, CHR 0x80, CHR 0xA9], [CHR 0xE2, CHR 0x80, CHR 0xAF],
      [CHR 0xE2, CHR 0x81, CHR 0x9F], [CHR 0xE3, CHR 0x80, CHR 0x80]]"

text \<open>Dropping from the head of \<open>s\<close> every leading member of the table \<open>ws\<close>.\<close>

function lstrip_with :: "string list \<Rightarrow> string \<Rightarrow> string" where
  "lstrip_with ws s =
     (case find (\<lambda>w. w \<noteq> [] \<and> take (length w) s = w) ws of
        None \<Rightarrow> s
      | Some w \<Rightarrow> lstrip_with ws (drop (length w) s))"
  by pat_completeness auto

termination
proof (relation "measure (\<lambda>(ws, s). length s)")
  show "wf (measure (\<lambda>(ws, s). length s))" by simp
next
  fix ws :: "string list" and s w :: string
  assume "find (\<lambda>w. w \<noteq> [] \<and> take (length w) s = w) ws = Some w"
  then have "w \<noteq> []" and "take (length w) s = w"
    by (auto simp: find_Some_iff)
  then have "s \<noteq> []" by auto
  with \<open>w \<noteq> []\<close> show "((ws, drop (length w) s), (ws, s)) \<in> measure (\<lambda>(ws, s). length s)"
    by simp
qed

definition strip :: "string \<Rightarrow> string" where
  "strip s = rev (lstrip_with (map rev whitespace) (rev (lstrip_with whitespace s)))"

text \<open>\<open>if len(cells) > i: row_data[field] = cells[i].text.strip()\<close>\<close>

definition put :: "string list \<Rightarrow> nat \<Rightarrow> string \<Rightarrow> row \<Rightarrow> row" where
  "put cells i field row_data =
     (if length cells > i then AList.update field (Str (strip (cells ! i))) row_data
      else row_data)"

text \<open>
  Source A, lines 132-176: the 22 guarded assignments, in the order of the source, on the
  texts of the \<open>td\<close> cells of one row.
\<close>

definition row_data_A :: "string list \<Rightarrow> row" where
  "row_data_A cells =
     fold (\<lambda>(i, field). put cells i field)
       [(0, ''Rk''), (2, ''Class''), (4, ''Player''), (6, ''Team''), (7, ''Conf''),
        (10, ''Min%''), (11, ''PRPG!''), (13, ''BPM''), (16, ''ORtg''), (18, ''Usg''),
        (19, ''eFG''), (20, ''TS''), (21, ''OR''), (22, ''DR''), (23, ''Ast''), (24, ''TO''),
        (26, ''Blk''), (27, ''Stl''), (28, ''FTR''), (39, ''2P''), (41, ''3P/100''),
        (43, ''3P'')]
       []"

text \<open>
  \<open>pd.DataFrame(list_of_dicts)\<close>: the columns are the keys in the order they are first
  seen, and a key a dict lacks reads \<open>NaN\<close>.
\<close>

definition first_seen :: "string list \<Rightarrow> string list" where
  "first_seen xs = rev (remdups (rev xs))"

definition DataFrame :: "row list \<Rightarrow> dataframe" where
  "DataFrame data_rows =
     (let cols = first_seen (concat (map (map fst) data_rows))
      in \<lparr>columns = cols, rows = map (reindex cols) data_rows\<rparr>)"

text \<open>
  Source A's live page also gives its \<open>table\<close> elements, a table being its \<open>tr\<close> rows and
  a row the texts of its \<open>td\<close> cells (the header row has \<open>th\<close> cells, and is skipped as
  the first row anyway).
\<close>

record 's page_A = "'s page" +
  tables_A :: "'s \<Rightarrow> string list list list"

text \<open>
  \<open>BartTorvikScraper.scrape_data\<close>, lines 47-195, on the page \<open>s0\<close> that \<open>driver.get\<close>
  opened: the wait for a table (lines 57-60) raises \<open>TimeoutException\<close> when none is there,
  the load-more loop runs, and the tables of the loaded page are read. The \<open>except\<close> of
  line 193 prints and raises again.
\<close>

definition scrape_data_A :: "int \<Rightarrow> ('s, 'x) page_A_scheme \<Rightarrow> 's \<Rightarrow> error + dataframe" where
  "scrape_data_A year p s0 =
     (if tables_A p s0 = [] then Inl TimeoutException
      else
        (let s = fst (paginate_A p s0);
             tables = tables_A p s
         in if length tables < 2 then Inl (ValueError ''Player stats table not found'')
            else
              (let trs = tables ! 1
               in if length trs < 2 then Inl (ValueError ''No data rows found in table'')
                  else
                    (let data_rows = map row_data_A
                                       (filter (\<lambda>cells. \<not> length cells < 20) (drop 1 trs));
                         df = DataFrame data_rows;
                         final_columns = filter (\<lambda>col. col \<in> set (columns df)) desired_columns
                     in case select final_columns df of
                          Inl e \<Rightarrow> Inl e
                        | Inr df' \<Rightarrow> Inr (set_col ''Year'' (Num year) df')))))"

text \<open>
  Source B's tables (\<open>table.Table\<close>): the texts of the \<open>th\<close> cells of the \<open>thead\<close>
  (\<open>None\<close> when the table has no \<open>thead\<close>, and \<open>find_element\<close> raises) and, for each
  \<open>tbody tr\<close>, the texts of its \<open>td\<close> cells.
\<close>

record table_B =
  thead :: "string list option"
  tbody :: "string list list"

record 's page_B = "'s page" +
  tables_B :: "'s \<Rightarrow> table_B list"

text \<open>Lines 166-192: one pass of the row loop; \<open>None\<close> is \<open>continue\<close>.\<close>

definition parse_row_B :: "string list \<Rightarrow> string list \<times> string list \<Rightarrow> row option" where
  "parse_row_B stats_headers nr =
     (let name_cells = fst nr; stats_cells = snd nr
      in if length name_cells < 2 then None
         else
           (let rk = strip (name_cells ! 0);
                name_text = strip (name_cells ! 1);
                (player_name, team) = extract_player_name_and_team name_text
            in if length stats_cells < length stats_headers then None
               else Some (fold (\<lambda>(j, header). put stats_cells j header)
                            (enumerate 0 stats_headers)
                            [(''RK'', Str rk), (''Player'', Str player_name),
                             (''Team'', Str team)])))"

text \<open>
  \<open>NBAScraper.scrape_data\<close>, lines 74-205, on the page that \<open>driver.get\<close> opened: the wait
  for a table (line 87) raises \<open>TimeoutException\<close> when none is there, the load-more loop
  runs, and the name table and the stats table of the loaded page are joined by row index
  over the shorter of the two.
\<close>

definition scrape_data_B :: "int \<Rightarrow> ('s, 'x) page_B_scheme \<Rightarrow> 's \<Rightarrow> error + dataframe" where
  "scrape_data_B year p s0 =
     (if tables_B p s0 = [] then Inl TimeoutException
      else
        (let s = fst (paginate_B p s0);
             tables = tables_B p s
         in if length tables < 2
            then Inl (ValueError (''Expected 2 tables but found '' @
                                  (if length tables = 0 then ''0'' else ''1'')))
            else
              (let name_table = tables ! 0; stats_table = tables ! 1
               in case thead stats_table of
                    None \<Rightarrow> Inl NoSuchElementException
                  | Some stats_header_cells \<Rightarrow>
                     (let stats_headers = map strip stats_header_cells;
                          name_rows = tbody name_table;
                          stats_rows = tbody stats_table;
                          data_rows = List.map_filter (parse_row_B stats_headers)
                                        (zip name_rows stats_rows);
                          df = DataFrame data_rows
                      in Inr (set_col ''Year'' (Num year) df)))))"

text \<open>
  The season loop of both programs (source A lines 276-289, source B lines 296-309): the
  sheet on disk, the seasons that succeeded and the seasons that failed. An error raised by
  the season's scrape or merge is caught, counted, and the loop goes on.
\<close>

type_synonym tally = "dataframe option \<times> nat \<times> nat"

definition run_season ::
  "(int \<Rightarrow> error + dataframe) \<Rightarrow> (dataframe option \<Rightarrow> dataframe \<Rightarrow> error + dataframe option) \<Rightarrow>
   int \<Rightarrow> tally \<Rightarrow> tally" where
  "run_season scrape_data append_to_excel year t =
     (case t of (store, successful, failed) \<Rightarrow>
        (case scrape_data year of
           Inl e \<Rightarrow> (store, successful, failed + 1)
         | Inr df \<Rightarrow>
            (case append_to_excel store df of
               Inl e \<Rightarrow> (store, successful, failed + 1)
             | Inr store' \<Rightarrow> (store', successful + 1, failed))))"

text \<open>\<open>range(2025, 2007, -1)\<close> and \<open>range(2002, 2026)\<close>; \<open>open_page\<close> is \<open>driver.get\<close>.\<close>

definition main_A :: "('s, 'x) page_A_scheme \<Rightarrow> (int \<Rightarrow> 's) \<Rightarrow> dataframe option \<Rightarrow> tally" where
  "main_A p open_page store =
     fold (run_season (\<lambda>year. scrape_data_A year p (open_page year)) append_to_excel_A)
       (rev [2008..2025]) (store, 0, 0)"

definition main_B :: "('s, 'x) page_B_scheme \<Rightarrow> (int \<Rightarrow> 's) \<Rightarrow> dataframe option \<Rightarrow> tally" where
  "main_B p open_page store =
     fold (run_season (\<lambda>year. scrape_data_B year p (open_page year)) append_to_excel_B)
       [2002..2025] (store, 0, 0)"

text \<open>
  The documented layout of source A, as the specification states it: the position of the
  data cell of each field, the field of a row as the layout gives it (null when the row has
  no such cell, or the layout no such field), and whether the row has the cell.
\<close>

definition documented_layout :: "(string \<times> nat) list" where
  "documented_layout =
     [(''Rk'', 0), (''Class'', 2), (''Player'', 4), (''Team'', 6), (''Conf'', 7),
      (''Min%'', 10), (''PRPG!'', 11), (''BPM'', 13), (''ORtg'', 16), (''Usg'', 18),
      (''eFG'', 19), (''TS'', 20), (''OR'', 21), (''DR'', 22), (''Ast'', 23), (''TO'', 24),
      (''Blk'', 26), (''Stl'', 27), (''FTR'', 28), (''2P'', 39), (''3P/100'', 41), (''3P'', 43)]"

definition documented_field :: "string list \<Rightarrow> string \<Rightarrow> cell" where
  "documented_field cells field =
     (case map_of documented_layout field of
        None \<Rightarrow> Null
      | Some i \<Rightarrow> if i < length cells then Str (strip (cells ! i)) else Null)"

definition has_field :: "string list \<Rightarrow> string \<Rightarrow> bool" where
  "has_field cells field =
     (case map_of documented_layout field of None \<Rightarrow> False | Some i \<Rightarrow> i < length cells)"

text \<open>
  Example pages with no load-more link, the state being the tables themselves. Source B:
  two players; no header section in the second table; no data row. Source A: a separator
  row of 3 cells, a full row of 44 cells and a row of 21 cells.
\<close>

definition still_page_A :: "string list list list page_A" where
  "still_page_A =
     \<lparr>clickable = (\<lambda>s. False), click = (\<lambda>s. None), row_count = (\<lambda>s. None),
      tables_A = (\<lambda>s. s)\<rparr>"

definition still_page_B :: "table_B list page_B" where
  "still_page_B =
     \<lparr>clickable = (\<lambda>s. False), click = (\<lambda>s. None), row_count = (\<lambda>s. None),
      tables_B = (\<lambda>s. s)\<rparr>"

definition espn_page :: "table_B list" where
  "espn_page =
     [\<lparr>thead = Some [''RK'', ''Name''],
       tbody = [[''1'', ''Luka DoncicDAL''], [''2'', '' Dennis SchroderTOR/BKN '']]\<rparr>,
      \<lparr>thead = Some [''POS'', ''GP''], tbody = [[''PG'', ''70''], [''PG'', ''74'']]\<rparr>]"

definition espn_bare_page :: "table_B list" where
  "espn_bare_page =
     [\<lparr>thead = Some [''RK'', ''Name''], tbody = [[''1'', ''Luka DoncicDAL'']]\<rparr>,
      \<lparr>thead = None, tbody = [[''PG'', ''70'']]\<rparr>]"

definition espn_blank_page :: "table_B list" where
  "espn_blank_page =
     [\<lparr>thead = Some [''RK'', ''Name''], tbody = []\<rparr>,
      \<lparr>thead = Some [''POS'', ''GP''], tbody = []\<rparr>]"

definition torvik_row :: "string list" where
  "torvik_row =
       ['' 1'', ''-'', ''Sr'', ''-'', '' Zach Edey '', ''-'', ''Purdue'', ''B10'', ''-'', ''-'',
        ''79.3'', ''7.9'', ''-'', ''14.1'', ''-'', ''-'', ''128.6'', ''-'', ''32.3'', ''62.4'',
        ''66.1'', ''15.3'', ''26.6'', ''13.5'', ''14.2'', ''-'', ''7.2'', ''.6'', ''85.7'',
        ''-'', ''-'', ''-'', ''-'', ''-'', ''-'', ''-'', ''-'', ''-'', ''-'', ''.625'', ''-'',
        ''0.1'', ''-'', ''.500'']"

definition torvik_short_row :: "string list" where
  "torvik_short_row =
       [''2'', ''-'', ''Jr'', ''-'', ''RJ Davis'', ''-'', ''North Carolina'', ''ACC'', ''-'',
        ''-'', ''85.1'', ''6.0'', ''-'', ''9.0'', ''-'', ''-'', ''118.1'', ''-'', ''27.2'',
        ''53.5'', ''57.9'']"

definition torvik_page :: "string list list list" where
  "torvik_page =
     [[[''Player Stats'']],
      [[], [''Rk'', ''Player'', ''Team''], torvik_row, torvik_short_row]]"

text \<open>A persisted sheet of source B with a column the example page does not have.\<close>

definition sheet_2022 :: dataframe where
  "sheet_2022 =
     \<lparr>columns = [''RK'', ''Player'', ''Team'', ''PTS'', ''Year''],
      rows = [[(''RK'', Str ''1''), (''Player'', Str ''Joel Embiid''), (''Team'', Str ''PHI''),
               (''PTS'', Str ''30.6''), (''Year'', Num 2022)]]\<rparr>"

section \<open>Facts about the pandas fragment\<close>

lemma columns_set_col_superset: "set (columns df) \<subseteq> set (columns (set_col c v df))"
  by (auto simp: set_col_def)

lemma columns_ensure_columns:
  "set (columns (ensure_columns cols df)) = set cols \<union> set (columns df)"
  unfolding ensure_columns_def
proof (induction cols arbitrary: df)
  case Nil
  show ?case by simp
next
  case (Cons c cols)
  show ?case by (simp add: Cons.IH) (auto simp: set_col_def)
qed

lemma select_ensure_columns:
  "select cols (ensure_columns cols df) =
     Inr \<lparr>columns = cols, rows = map (reindex cols) (rows (ensure_columns cols df))\<rparr>"
  by (simp add: select_def columns_ensure_columns)

lemma columns_drop_year: "columns (drop_year df existing) = columns existing"
  by (simp add: drop_year_def Let_def)

lemma columns_concat_same: "columns a = columns b \<Longrightarrow> columns (concat_df a b) = columns a"
  by (simp add: concat_df_def Let_def)

section \<open>Source A: the written column order\<close>

text \<open>
  C10. Whatever sheet is on disk and whatever columns the new records have, source A's merge
  writes a sheet whose columns are the 22 whitelisted names followed by Year, in that order.
\<close>

theorem append_to_excel_A_columns:
  "\<exists>out. append_to_excel_A store df = Inr (Some out) \<and>
     columns out =
       [''Rk'', ''Player'', ''Class'', ''Team'', ''Conf'', ''Min%'', ''PRPG!'', ''BPM'', ''ORtg'',
        ''Usg'', ''eFG'', ''TS'', ''OR'', ''DR'', ''Ast'', ''TO'', ''Blk'', ''Stl'', ''FTR'', ''2P'',
        ''3P/100'', ''3P'', ''Year'']"
proof -
  let ?cols = "desired_columns @ [''Year'']"
  have cols: "?cols =
       [''Rk'', ''Player'', ''Class'', ''Team'', ''Conf'', ''Min%'', ''PRPG!'', ''BPM'', ''ORtg'',
        ''Usg'', ''eFG'', ''TS'', ''OR'', ''DR'', ''Ast'', ''TO'', ''Blk'', ''Stl'', ''FTR'', ''2P'',
        ''3P/100'', ''3P'', ''Year'']"
    by (simp add: desired_columns_def)
  show ?thesis
  proof (cases "read_existing store")
    case None
    then show ?thesis
      unfolding append_to_excel_A_def Let_def select_ensure_columns
      by (simp add: cols [symmetric])
  next
    case (Some ex)
    then show ?thesis
      unfolding append_to_excel_A_def Let_def select_ensure_columns
      by (cases "empty_df ex") (simp_all add: cols [symmetric] columns_concat_same columns_drop_year)
  qed
qed

section \<open>Facts about rows and frames\<close>

lemma lookup_reindex: "lookup (reindex cols r) c = (if c \<in> set cols then lookup r c else Null)"
proof -
  have "map_of (map (\<lambda>c. (c, lookup r c)) cols) c = (if c \<in> set cols then Some (lookup r c) else None)"
    by (induction cols) auto
  then show ?thesis by (simp add: lookup_def reindex_def)
qed

lemma reindex_reindex: "set cols \<subseteq> set cols' \<Longrightarrow> reindex cols (reindex cols' r) = reindex cols r"
  by (auto simp: reindex_def lookup_reindex[unfolded reindex_def])

lemma keys_reindex: "map fst (reindex cols r) = cols"
  by (simp add: reindex_def comp_def)

lemma lookup_update: "lookup (AList.update c v r) c' = (if c' = c then v else lookup r c')"
  by (simp add: lookup_def update_conv')

lemma lookup_absent: "c \<notin> set (map fst r) \<Longrightarrow> lookup r c = Null"
  using map_of_eq_None_iff [of r c] by (auto simp: lookup_def)

lemma reindex_update_absent:
  "c \<notin> set (map fst r) \<Longrightarrow> reindex cs (AList.update c Null r) = reindex cs r"
  by (auto simp: reindex_def lookup_update lookup_absent)

lemma set_col_new:
  assumes "rectangular d" "c \<notin> set (columns d)"
  shows "rectangular (set_col c Null d)"
    and "map (reindex cs) (rows (set_col c Null d)) = map (reindex cs) (rows d)"
  using assms
  by (auto simp: rectangular_def set_col_def list_all_iff update_keys reindex_update_absent)

lemma ensure_columns_rows:
  "rectangular df \<Longrightarrow>
     rectangular (ensure_columns cols df) \<and>
     map (reindex cs) (rows (ensure_columns cols df)) = map (reindex cs) (rows df)"
  unfolding ensure_columns_def
proof (induction cols arbitrary: df)
  case Nil
  then show ?case by simp
next
  case (Cons c cols)
  show ?case
  proof (cases "c \<in> set (columns df)")
    case True
    with Cons show ?thesis by simp
  next
    case False
    with Cons.prems have "rectangular (set_col c Null df)"
      and "map (reindex cs) (rows (set_col c Null df)) = map (reindex cs) (rows df)"
      by (simp_all add: set_col_new)
    with Cons.IH [of "set_col c Null df"] False show ?thesis by simp
  qed
qed

section \<open>The merges in closed form\<close>

lemma select_ensure:
  assumes "rectangular df" "set cs \<subseteq> set cols \<union> set (columns df)"
  shows "select cs (ensure_columns cols df) = Inr (normalise cs (rows df))"
  using assms ensure_columns_rows [of df cols cs]
  by (simp add: select_def columns_ensure_columns normalise_def)

lemma select_plain:
  "set cs \<subseteq> set (columns df) \<Longrightarrow> select cs df = Inr (normalise cs (rows df))"
  by (simp add: select_def normalise_def)

lemma concat_normalise:
  "concat_df (normalise cs ra) (normalise cs rb) = normalise cs (ra @ rb)"
  by (simp add: concat_df_def normalise_def reindex_reindex)

lemma drop_year_normalise:
  "drop_year (normalise cs new) (normalise cs old) = normalise cs (kept cs new old)"
proof (cases "''Year'' \<in> set cs \<and> new \<noteq> [] \<and> lookup (hd new) ''Year'' \<noteq> Null")
  case True
  then have y: "year_to_append (normalise cs new) = lookup (hd new) ''Year''"
    by (simp add: year_to_append_def normalise_def hd_map lookup_reindex)
  from True show ?thesis
    by (simp add: drop_year_def y kept_def Let_def)
       (simp add: normalise_def filter_map comp_def lookup_reindex)
next
  case False
  then have "''Year'' \<notin> set cs \<or> year_to_append (normalise cs new) = Null"
    by (auto simp: year_to_append_def normalise_def hd_map lookup_reindex)
  with False show ?thesis
    by (auto simp: drop_year_def kept_def Let_def normalise_def)
qed

lemma read_existing_Some:
  "read_existing store = Some ex \<Longrightarrow> store = Some ex \<and> \<not> empty_df ex"
  by (auto simp: read_existing_def split: option.splits if_splits)

lemma append_to_excel_A_closed:
  assumes "rectangular df" "stored_ok store"
  shows "append_to_excel_A store df =
     Inr (Some (case read_existing store of
                  None \<Rightarrow> normalise (desired_columns @ [''Year'']) (rows df)
                | Some ex \<Rightarrow> normalise (desired_columns @ [''Year''])
                              (kept (desired_columns @ [''Year'']) (rows df) (rows ex) @ rows df)))"
proof (cases "read_existing store")
  case None
  with assms show ?thesis
    by (simp add: append_to_excel_A_def Let_def select_ensure)
next
  case (Some ex)
  then have ex: "store = Some ex" "\<not> empty_df ex" using read_existing_Some by auto
  with assms have "rectangular ex" by (simp add: stored_ok_def)
  with Some assms ex(2) show ?thesis
    by (simp add: append_to_excel_A_def Let_def select_ensure drop_year_normalise concat_normalise)
qed

lemma set_column_order_of: "set (column_order_of cs) = set cs"
  by (auto simp: column_order_of_def Let_def priority_cols_def)

lemma append_to_excel_B_closed:
  assumes "rectangular df" "stored_ok store" "\<not> empty_df df"
  shows "append_to_excel_B store df = Inr (Some (merged_B (read_existing store) df))"
proof (cases "read_existing store")
  case None
  with assms show ?thesis
    by (simp add: append_to_excel_B_def write_fresh_B_def merged_B_def
        select_plain set_column_order_of)
next
  case (Some ex)
  then have ex: "store = Some ex" "\<not> empty_df ex" using read_existing_Some by auto
  with assms have rex: "rectangular ex" by (simp add: stored_ok_def)
  let ?all = "sort (remdups (columns df @ columns ex))"
  have 1: "select (column_order_of ?all) (ensure_columns ?all df) =
             Inr (normalise (column_order_of ?all) (rows df))"
    by (rule select_ensure [OF assms(1)]) (auto simp: set_column_order_of)
  have 2: "select (column_order_of ?all) (ensure_columns ?all ex) =
             Inr (normalise (column_order_of ?all) (rows ex))"
    by (rule select_ensure [OF rex]) (auto simp: set_column_order_of)
  from Some ex assms(3) show ?thesis
    unfolding append_to_excel_B_def Let_def merged_B_def
    by (simp add: 1 2 drop_year_normalise concat_normalise)
qed

lemma kept_same_year:
  assumes "''Year'' \<in> set cs" "new \<noteq> []" "\<forall>r\<in>set new. lookup r ''Year'' = Num y"
  shows "kept cs new old = filter (\<lambda>r. lookup r ''Year'' \<noteq> Num y) old"
proof -
  from assms have "lookup (hd new) ''Year'' = Num y" by (cases new) auto
  with assms show ?thesis by (simp add: kept_def)
qed

lemma kept_reindex:
  "''Year'' \<in> set cs \<Longrightarrow>
     kept cs new (map (reindex cs) old) = map (reindex cs) (kept cs new old)"
  by (simp add: kept_def filter_map comp_def lookup_reindex)

lemma rectangular_normalise: "rectangular (normalise cs rs)"
  by (simp add: rectangular_def normalise_def list_all_iff keys_reindex)

lemma year_column:
  assumes "rectangular df" "r \<in> set (rows df)" "lookup r ''Year'' = Num y"
  shows "''Year'' \<in> set (columns df)"
proof (rule ccontr)
  assume "''Year'' \<notin> set (columns df)"
  with assms(1,2) have "''Year'' \<notin> set (map fst r)"
    by (auto simp: rectangular_def list_all_iff)
  then have "lookup r ''Year'' = Null" by (rule lookup_absent)
  with assms(3) show False by simp
qed

lemma kept_Nil: "kept cs new [] = []"
  by (simp add: kept_def)

lemma append_to_excel_A_rows:
  assumes "rectangular df" "stored_ok store"
  shows "append_to_excel_A store df =
     Inr (Some (normalise order_A (kept order_A (rows df) (existing_rows store) @ rows df)))"
  using append_to_excel_A_closed [OF assms]
  by (simp add: order_A_def existing_rows_def kept_Nil split: option.splits)

lemma append_to_excel_B_rows:
  assumes "rectangular df" "stored_ok store" "\<not> empty_df df"
  shows "append_to_excel_B store df =
     Inr (Some (normalise (order_B store df)
                  (kept (order_B store df) (rows df) (existing_rows store) @ rows df)))"
  using append_to_excel_B_closed [OF assms]
  by (simp add: order_B_def existing_rows_def merged_B_def kept_Nil Let_def split: option.splits)

lemma select_ensure_some:
  assumes "set cs \<subseteq> set cols \<union> set (columns df)"
  shows "\<exists>rs. select cs (ensure_columns cols df) = Inr \<lparr>columns = cs, rows = rs\<rparr>"
  using assms by (simp add: select_def columns_ensure_columns)

lemma append_to_excel_B_columns:
  assumes "\<not> empty_df df"
  shows "\<exists>out. append_to_excel_B store df = Inr (Some out) \<and> columns out = order_B store df"
proof (cases "read_existing store")
  case None
  with assms show ?thesis
    by (simp add: append_to_excel_B_def write_fresh_B_def order_B_def select_def
        set_column_order_of)
next
  case (Some ex)
  then have ex: "\<not> empty_df ex" using read_existing_Some by auto
  let ?all = "sort (remdups (columns df @ columns ex))"
  obtain r1 where 1: "select (column_order_of ?all) (ensure_columns ?all df) =
      Inr \<lparr>columns = column_order_of ?all, rows = r1\<rparr>"
    using select_ensure_some [of "column_order_of ?all" ?all df]
    by (auto simp: set_column_order_of)
  obtain r2 where 2: "select (column_order_of ?all) (ensure_columns ?all ex) =
      Inr \<lparr>columns = column_order_of ?all, rows = r2\<rparr>"
    using select_ensure_some [of "column_order_of ?all" ?all ex]
    by (auto simp: set_column_order_of)
  from Some ex assms show ?thesis
    unfolding append_to_excel_B_def Let_def
    by (simp add: 1 2 order_B_def columns_concat_same columns_drop_year)
qed

lemma set_order_B: "set (order_B store df) = set (columns df) \<union> set (existing_columns store)"
  by (simp add: order_B_def existing_columns_def set_column_order_of split: option.splits)

lemma Year_in_order_A: "''Year'' \<in> set order_A"
  by (simp add: order_A_def)

lemma untouched_rows:
  assumes "''Year'' \<in> set cs" "\<forall>r\<in>set new. lookup r ''Year'' = Num y"
  shows "filter (\<lambda>r. lookup r ''Year'' \<noteq> Num y) (rows (normalise cs (kept cs new old @ new))) =
         map (reindex cs) (filter (\<lambda>r. lookup r ''Year'' \<noteq> Num y) old)"
proof -
  have new: "filter (\<lambda>r. lookup r ''Year'' \<noteq> Num y) new = []"
    using assms(2) by (simp add: filter_empty_conv)
  have old: "filter (\<lambda>r. lookup r ''Year'' \<noteq> Num y) (kept cs new old) =
             filter (\<lambda>r. lookup r ''Year'' \<noteq> Num y) old"
  proof (cases "new = []")
    case True
    then show ?thesis by (simp add: kept_def)
  next
    case False
    then show ?thesis using kept_same_year [OF assms(1) False assms(2)] by simp
  qed
  show ?thesis
    using assms(1) by (simp add: normalise_def filter_map comp_def lookup_reindex new old)
qed

section \<open>Idempotence, season isolation, rectangularity\<close>

lemma distinct_column_order_of: "distinct cs \<Longrightarrow> distinct (column_order_of cs)"
  by (auto simp: column_order_of_def Let_def priority_cols_def)

lemma column_order_of_canonical:
  assumes "distinct cs"
  shows "column_order_of cs = column_order_of (sort (remdups cs))"
proof -
  let ?P = "\<lambda>col. col \<notin> set priority_cols \<and> col \<noteq> ''Year''"
  have "sort (filter ?P (sort (remdups cs))) = sort (filter ?P cs)"
    using assms by (simp add: filter_sort distinct_remdups_id sorted_sort_id)
  then show ?thesis by (simp add: column_order_of_def Let_def)
qed

lemma sort_remdups_cong: "set xs = set ys \<Longrightarrow> sort (remdups xs) = sort (remdups ys)"
  by (metis sorted_list_of_set_sort_remdups)

lemma order_B_rerun:
  assumes "distinct (columns df)" "columns once = order_B store df" "\<not> empty_df once"
  shows "order_B (Some once) df = order_B store df"
proof -
  have re: "read_existing (Some once) = Some once"
    using assms(3) by (auto simp: read_existing_def empty_df_def)
  show ?thesis
  proof (cases "read_existing store")
    case None
    then have o: "order_B store df = column_order_of (columns df)" by (simp add: order_B_def)
    have "sort (remdups (columns df @ column_order_of (columns df))) = sort (remdups (columns df))"
      by (rule sort_remdups_cong) (simp add: set_column_order_of)
    then show ?thesis
      using assms(1,2) column_order_of_canonical [OF assms(1)]
      by (simp add: order_B_def re None)
  next
    case (Some ex)
    let ?all = "sort (remdups (columns df @ columns ex))"
    have "sort (remdups (columns df @ column_order_of ?all)) = ?all"
      by (rule trans [OF sort_remdups_cong [of _ "columns df @ columns ex"]])
         (auto simp: set_column_order_of)
    then show ?thesis using assms(2) by (simp add: order_B_def re Some)
  qed
qed

lemma rerun_rows:
  assumes "''Year'' \<in> set cs" "new \<noteq> []" "\<forall>r\<in>set new. lookup r ''Year'' = Num y"
  shows "normalise cs (kept cs new (rows (normalise cs (kept cs new old @ new))) @ new) =
         normalise cs (kept cs new old @ new)"
proof -
  let ?P = "\<lambda>r. lookup r ''Year'' \<noteq> Num y"
  have k: "\<And>old. kept cs new old = filter ?P old"
    by (rule kept_same_year [OF assms])
  have new: "filter ?P new = []"
    using assms(3) by (simp add: filter_empty_conv)
  have "kept cs new (rows (normalise cs (kept cs new old @ new))) = map (reindex cs) (filter ?P old)"
    using untouched_rows [OF assms(1,3), of old] by (simp add: k)
  then show ?thesis
    by (simp add: k normalise_def reindex_reindex)
qed

text \<open>
  C1. For a non-empty set of new records that all carry Year \<open>y\<close>, merged into any persisted
  sheet: the sheet written by the first merge is written again, unchanged, by a second merge of
  the same records that starts from it. Its rows are the existing rows whose Year is not \<open>y\<close>
  followed by the new rows, each in the final column order, so a rerun replaces season \<open>y\<close>
  and duplicates nothing. Both sources.
\<close>

theorem merge_rerun_idempotent:
  assumes "rectangular df" and "distinct (columns df)" and "stored_ok store"
    and "rows df \<noteq> []" and "\<forall>r\<in>set (rows df). lookup r ''Year'' = Num y"
  shows "(\<exists>once. append_to_excel_A store df = Inr (Some once) \<and>
            append_to_excel_A (Some once) df = Inr (Some once) \<and>
            rows once = map (reindex (columns once))
               (filter (\<lambda>r. lookup r ''Year'' \<noteq> Num y) (existing_rows store) @ rows df)) \<and>
         (\<exists>once. append_to_excel_B store df = Inr (Some once) \<and>
            append_to_excel_B (Some once) df = Inr (Some once) \<and>
            rows once = map (reindex (columns once))
               (filter (\<lambda>r. lookup r ''Year'' \<noteq> Num y) (existing_rows store) @ rows df))"
proof
  let ?P = "\<lambda>r. lookup r ''Year'' \<noteq> Num y"
  obtain r where r: "r \<in> set (rows df)" using assms(4) by (cases "rows df") auto
  with assms have ycol: "''Year'' \<in> set (columns df)" using year_column by blast
  then have nonempty: "\<not> empty_df df" using assms(4) by (auto simp: empty_df_def)
  {
    let ?once = "normalise order_A (kept order_A (rows df) (existing_rows store) @ rows df)"
    have 1: "append_to_excel_A store df = Inr (Some ?once)"
      by (rule append_to_excel_A_rows [OF assms(1,3)])
    have ne: "\<not> empty_df ?once"
      using assms(4) by (simp add: empty_df_def normalise_def order_A_def)
    then have ex: "existing_rows (Some ?once) = rows ?once"
      by (simp add: existing_rows_def read_existing_def empty_df_def)
    have "append_to_excel_A (Some ?once) df =
            Inr (Some (normalise order_A (kept order_A (rows df) (rows ?once) @ rows df)))"
      using append_to_excel_A_rows [OF assms(1), of "Some ?once"]
      by (simp add: stored_ok_def rectangular_normalise ex)
    then have 2: "append_to_excel_A (Some ?once) df = Inr (Some ?once)"
      by (simp only: rerun_rows [OF Year_in_order_A assms(4,5)])
    have 3: "rows ?once = map (reindex (columns ?once)) (filter ?P (existing_rows store) @ rows df)"
      by (simp add: normalise_def kept_same_year [OF Year_in_order_A assms(4,5)])
    from 1 2 3 show "\<exists>once. append_to_excel_A store df = Inr (Some once) \<and>
            append_to_excel_A (Some once) df = Inr (Some once) \<and>
            rows once = map (reindex (columns once)) (filter ?P (existing_rows store) @ rows df)"
      by blast
  }
  {
    let ?co = "order_B store df"
    let ?once = "normalise ?co (kept ?co (rows df) (existing_rows store) @ rows df)"
    have yco: "''Year'' \<in> set ?co" using ycol by (simp add: set_order_B)
    have 1: "append_to_excel_B store df = Inr (Some ?once)"
      by (rule append_to_excel_B_rows [OF assms(1,3) nonempty])
    have ne: "\<not> empty_df ?once"
      using assms(4) yco by (auto simp: empty_df_def normalise_def)
    then have ex: "existing_rows (Some ?once) = rows ?once"
      by (simp add: existing_rows_def read_existing_def empty_df_def)
    have co: "order_B (Some ?once) df = ?co"
      by (rule order_B_rerun [OF assms(2) _ ne]) (simp add: normalise_def)
    have "append_to_excel_B (Some ?once) df =
            Inr (Some (normalise ?co (kept ?co (rows df) (rows ?once) @ rows df)))"
      using append_to_excel_B_rows [OF assms(1) _ nonempty, of "Some ?once"]
      by (simp add: stored_ok_def rectangular_normalise ex co)
    then have 2: "append_to_excel_B (Some ?once) df = Inr (Some ?once)"
      by (simp only: rerun_rows [OF yco assms(4,5)])
    have 3: "rows ?once = map (reindex (columns ?once)) (filter ?P (existing_rows store) @ rows df)"
      by (simp add: normalise_def kept_same_year [OF yco assms(4,5)])
    from 1 2 3 show "\<exists>once. append_to_excel_B store df = Inr (Some once) \<and>
            append_to_excel_B (Some once) df = Inr (Some once) \<and>
            rows once = map (reindex (columns once)) (filter ?P (existing_rows store) @ rows df)"
      by blast
  }
qed

lemma example_frames:
  "rectangular new_2024" "distinct (columns new_2024)" "stored_ok (Some sheet_2023)"
  "rows new_2024 \<noteq> []" "\<forall>r\<in>set (rows new_2024). lookup r ''Year'' = Num 2024"
  "\<not> empty_df new_2024"
  "existing_rows (Some sheet_2023) = rows sheet_2023"
  "existing_columns (Some sheet_2023) = columns sheet_2023"
  by (simp_all add: new_2024_def sheet_2023_def rectangular_def stored_ok_def lookup_def
      existing_rows_def existing_columns_def read_existing_def empty_df_def)

text \<open>The rerun theorem at a sheet that already holds a 2024 row: two rows before and after.\<close>

theorem merge_rerun_idempotent_witness:
  "(\<exists>once. append_to_excel_A (Some sheet_2023) new_2024 = Inr (Some once) \<and>
      append_to_excel_A (Some once) new_2024 = Inr (Some once) \<and> length (rows once) = 2) \<and>
   (\<exists>once. append_to_excel_B (Some sheet_2023) new_2024 = Inr (Some once) \<and>
      append_to_excel_B (Some once) new_2024 = Inr (Some once) \<and> length (rows once) = 2)"
proof -
  have len: "length (filter (\<lambda>r. lookup r ''Year'' \<noteq> Num 2024) (rows sheet_2023) @ rows new_2024) = 2"
    by (simp add: sheet_2023_def new_2024_def lookup_def)
  show ?thesis
    using merge_rerun_idempotent [OF example_frames(1-5)] len
    by (auto simp: example_frames(7))
qed

text \<open>
  C2, as amended. For new records of season \<open>y\<close>, the records of the merged sheet whose Year
  is not \<open>y\<close> are the existing records whose Year is not \<open>y\<close>, in the same order, and
  every column of the merged sheet reads on them what it read before. Source B's merged sheet
  has every existing column; source A's has the whitelist and Year only. With no new record to
  append, source B leaves the sheet as it is.
\<close>

theorem season_isolation:
  assumes "rectangular df" and "stored_ok store"
    and "\<forall>r\<in>set (rows df). lookup r ''Year'' = Num y"
  shows "(\<exists>out. append_to_excel_A store df = Inr (Some out) \<and>
            columns out = desired_columns @ [''Year''] \<and>
            (\<forall>c\<in>set (columns out).
               map (\<lambda>r. lookup r c) (filter (\<lambda>r. lookup r ''Year'' \<noteq> Num y) (rows out)) =
               map (\<lambda>r. lookup r c)
                 (filter (\<lambda>r. lookup r ''Year'' \<noteq> Num y) (existing_rows store)))) \<and>
         (if empty_df df then append_to_excel_B store df = Inr store
          else \<exists>out. append_to_excel_B store df = Inr (Some out) \<and>
            set (existing_columns store) \<subseteq> set (columns out) \<and>
            (\<forall>c\<in>set (columns out).
               map (\<lambda>r. lookup r c) (filter (\<lambda>r. lookup r ''Year'' \<noteq> Num y) (rows out)) =
               map (\<lambda>r. lookup r c)
                 (filter (\<lambda>r. lookup r ''Year'' \<noteq> Num y) (existing_rows store))))"
proof
  let ?P = "\<lambda>r. lookup r ''Year'' \<noteq> Num y"
  have fields: "\<And>cs old c. c \<in> set cs \<Longrightarrow>
      map (\<lambda>r. lookup r c) (map (reindex cs) (filter ?P old)) = map (\<lambda>r. lookup r c) (filter ?P old)"
    by (simp add: comp_def lookup_reindex)
  let ?outA = "normalise order_A (kept order_A (rows df) (existing_rows store) @ rows df)"
  have "append_to_excel_A store df = Inr (Some ?outA)"
    by (rule append_to_excel_A_rows [OF assms(1,2)])
  moreover have "columns ?outA = desired_columns @ [''Year'']"
    by (simp add: normalise_def order_A_def)
  moreover have "\<forall>c\<in>set (columns ?outA).
      map (\<lambda>r. lookup r c) (filter ?P (rows ?outA)) =
      map (\<lambda>r. lookup r c) (filter ?P (existing_rows store))"
    unfolding untouched_rows [OF Year_in_order_A assms(3)]
    by (simp add: lookup_reindex normalise_def)
  ultimately show "\<exists>out. append_to_excel_A store df = Inr (Some out) \<and>
            columns out = desired_columns @ [''Year''] \<and>
            (\<forall>c\<in>set (columns out).
               map (\<lambda>r. lookup r c) (filter ?P (rows out)) =
               map (\<lambda>r. lookup r c) (filter ?P (existing_rows store)))"
    by blast
next
  let ?P = "\<lambda>r. lookup r ''Year'' \<noteq> Num y"
  have fields: "\<And>cs old c. c \<in> set cs \<Longrightarrow>
      map (\<lambda>r. lookup r c) (map (reindex cs) (filter ?P old)) = map (\<lambda>r. lookup r c) (filter ?P old)"
    by (simp add: comp_def lookup_reindex)
  show "if empty_df df then append_to_excel_B store df = Inr store
        else \<exists>out. append_to_excel_B store df = Inr (Some out) \<and>
            set (existing_columns store) \<subseteq> set (columns out) \<and>
            (\<forall>c\<in>set (columns out).
               map (\<lambda>r. lookup r c) (filter ?P (rows out)) =
               map (\<lambda>r. lookup r c) (filter ?P (existing_rows store)))"
  proof (cases "empty_df df")
    case True
    then show ?thesis by (simp add: append_to_excel_B_def)
  next
    case False
    let ?co = "order_B store df"
    let ?out = "normalise ?co (kept ?co (rows df) (existing_rows store) @ rows df)"
    from False obtain r where "r \<in> set (rows df)"
      by (cases "rows df") (auto simp: empty_df_def)
    with assms have "''Year'' \<in> set (columns df)" using year_column by blast
    then have yco: "''Year'' \<in> set ?co" by (simp add: set_order_B)
    have "append_to_excel_B store df = Inr (Some ?out)"
      by (rule append_to_excel_B_rows [OF assms(1,2) False])
    moreover have "set (existing_columns store) \<subseteq> set (columns ?out)"
      by (simp add: normalise_def set_order_B)
    moreover have "\<forall>c\<in>set (columns ?out).
        map (\<lambda>r. lookup r c) (filter ?P (rows ?out)) =
        map (\<lambda>r. lookup r c) (filter ?P (existing_rows store))"
      unfolding untouched_rows [OF yco assms(3)]
      by (simp add: lookup_reindex normalise_def)
    ultimately show ?thesis using False by auto
  qed
qed

text \<open>Season isolation at the example sheet: the 2023 row keeps its player.\<close>

theorem season_isolation_witness:
  "(\<exists>out. append_to_excel_A (Some sheet_2023) new_2024 = Inr (Some out) \<and>
      map (\<lambda>r. lookup r ''Player'') (filter (\<lambda>r. lookup r ''Year'' \<noteq> Num 2024) (rows out)) =
        [Str ''Joel Embiid'']) \<and>
   (\<exists>out. append_to_excel_B (Some sheet_2023) new_2024 = Inr (Some out) \<and>
      set (columns sheet_2023) \<subseteq> set (columns out) \<and>
      map (\<lambda>r. lookup r ''Player'') (filter (\<lambda>r. lookup r ''Year'' \<noteq> Num 2024) (rows out)) =
        [Str ''Joel Embiid''])"
proof -
  let ?P = "\<lambda>r. lookup r ''Year'' \<noteq> Num 2024"
  have p: "map (\<lambda>r. lookup r ''Player'') (filter ?P (rows sheet_2023)) = [Str ''Joel Embiid'']"
    by (simp add: sheet_2023_def lookup_def)
  note iso = season_isolation [OF example_frames(1,3,5)]
  from iso obtain a where a: "append_to_excel_A (Some sheet_2023) new_2024 = Inr (Some a)"
    "columns a = desired_columns @ [''Year'']"
    "\<forall>c\<in>set (columns a).
       map (\<lambda>r. lookup r c) (filter ?P (rows a)) = map (\<lambda>r. lookup r c) (filter ?P (rows sheet_2023))"
    by (auto simp: example_frames(7))
  from a(2) have "''Player'' \<in> set (columns a)" by (simp add: desired_columns_def)
  with a(3) p have pa: "map (\<lambda>r. lookup r ''Player'') (filter ?P (rows a)) = [Str ''Joel Embiid'']"
    by simp
  from iso obtain out where out: "append_to_excel_B (Some sheet_2023) new_2024 = Inr (Some out)"
    "set (columns sheet_2023) \<subseteq> set (columns out)"
    "\<forall>c\<in>set (columns out).
       map (\<lambda>r. lookup r c) (filter ?P (rows out)) = map (\<lambda>r. lookup r c) (filter ?P (rows sheet_2023))"
    by (auto simp: example_frames(6,7,8))
  from out(2) have "''Player'' \<in> set (columns out)" by (auto simp: sheet_2023_def)
  with out(3) p have "map (\<lambda>r. lookup r ''Player'') (filter ?P (rows out)) = [Str ''Joel Embiid'']"
    by simp
  with out(1,2) have B: "\<exists>out. append_to_excel_B (Some sheet_2023) new_2024 = Inr (Some out) \<and>
      set (columns sheet_2023) \<subseteq> set (columns out) \<and>
      map (\<lambda>r. lookup r ''Player'') (filter ?P (rows out)) = [Str ''Joel Embiid'']"
    by (intro exI [of _ out] conjI)
  from a(1) pa have A: "\<exists>out. append_to_excel_A (Some sheet_2023) new_2024 = Inr (Some out) \<and>
      map (\<lambda>r. lookup r ''Player'') (filter ?P (rows out)) = [Str ''Joel Embiid'']"
    by (intro exI [of _ a] conjI)
  from A B show ?thesis ..
qed






text \<open>
  C2 as stated fails for source A: a persisted row of season 2020 carries a field \<open>Notes\<close>
  outside the whitelist; after merging season 2024 the row is there without that field.
\<close>

theorem season_isolation_counterexample:
  "lookup (hd (rows sheet_A_2020)) ''Year'' = Num 2020 \<and>
   lookup (hd (rows sheet_A_2020)) ''Notes'' = Str ''injured'' \<and>
   append_to_excel_A (Some sheet_A_2020) new_A_2024 =
     Inr (Some \<lparr>columns = [''Rk'', ''Player'', ''Class'', ''Team'', ''Conf'', ''Min%'', ''PRPG!'', ''BPM'', ''ORtg'', ''Usg'', ''eFG'', ''TS'', ''OR'', ''DR'', ''Ast'', ''TO'', ''Blk'', ''Stl'', ''FTR'', ''2P'', ''3P/100'', ''3P'', ''Year''],
       rows = [
               [(''Rk'', Str ''1''), (''Player'', Str ''Zach Edey''), (''Class'', Null),
                (''Team'', Null), (''Conf'', Null), (''Min%'', Null), (''PRPG!'', Null),
                (''BPM'', Null), (''ORtg'', Null), (''Usg'', Null), (''eFG'', Null),
                (''TS'', Null), (''OR'', Null), (''DR'', Null), (''Ast'', Null),
                (''TO'', Null), (''Blk'', Null), (''Stl'', Null), (''FTR'', Null),
                (''2P'', Null), (''3P/100'', Null), (''3P'', Null), (''Year'', Num 2020)],
               [(''Rk'', Str ''1''), (''Player'', Str ''Cooper Flagg''), (''Class'', Null),
                (''Team'', Null), (''Conf'', Null), (''Min%'', Null), (''PRPG!'', Null),
                (''BPM'', Null), (''ORtg'', Null), (''Usg'', Null), (''eFG'', Null),
                (''TS'', Null), (''OR'', Null), (''DR'', Null), (''Ast'', Null),
                (''TO'', Null), (''Blk'', Null), (''Stl'', Null), (''FTR'', Null),
                (''2P'', Null), (''3P/100'', Null), (''3P'', Null), (''Year'', Num 2024)]]\<rparr>)"
  by code_simp

section \<open>Facts about the name and team split\<close>

lemma upper_2_4_D:
  assumes "m \<in> set (upper_2_4 s)"
  shows "m \<in> {2, 3, 4}" and "m \<le> length s" and "list_all is_upper (take m s)"
  using assms unfolding upper_2_4_def set_filter by auto

lemma slash_teams_suffix: "r \<in> set (slash_teams s) \<Longrightarrow> \<exists>pre. s = pre @ r"
proof (induction s arbitrary: r rule: slash_teams.induct)
  case 1
  then show ?case by simp
next
  case (2 c t)
  from "2.prems" obtain m where c: "c = CHR ''/''" and m: "m \<in> set (upper_2_4 t)"
    and r: "r \<in> set (slash_teams (drop m t)) \<or> r = drop m t"
    by (auto split: if_splits)
  from r have "\<exists>pre. drop m t = pre @ r"
  proof
    assume "r \<in> set (slash_teams (drop m t))"
    then show ?thesis using "2.IH" [OF c m] by blast
  next
    assume "r = drop m t"
    then show ?thesis by simp
  qed
  then obtain pre where "drop m t = pre @ r" ..
  then have "c # t = (c # take m t @ pre) @ r"
    by (metis append_Cons append_assoc append_take_drop_id)
  then show ?case by blast
qed

lemma starts_upper_pair:
  assumes "upper_2_4 r \<noteq> []"
  shows "\<exists>a b cs. r = a # b # cs \<and> is_upper a \<and> is_upper b"
proof -
  from assms obtain m where m: "m \<in> set (upper_2_4 r)" by (cases "upper_2_4 r") auto
  from upper_2_4_D [OF m] obtain a b cs where r: "r = a # b # cs"
    by (cases r; cases "tl r") auto
  with upper_2_4_D [OF m] have "is_upper a \<and> is_upper b"
    by (auto simp: take_Cons' split: if_splits)
  with r show ?thesis by blast
qed

lemma tail_slash_D:
  assumes "tail_slash r = Some t"
  shows "\<exists>e. r = t @ e \<and> at_end e" and "upper_2_4 r \<noteq> []"
proof -
  from assms obtain e rest where
    f: "filter at_end (concat (map (\<lambda>m. slash_teams (drop m r)) (upper_2_4 r))) = e # rest"
    and t: "t = take (length r - length e) r"
    by (auto simp: tail_slash_def split: list.splits)
  from f have "e \<in> set (filter at_end (concat (map (\<lambda>m. slash_teams (drop m r)) (upper_2_4 r))))"
    by simp
  then obtain m where e: "at_end e" and m: "m \<in> set (upper_2_4 r)"
    and mem: "e \<in> set (slash_teams (drop m r))"
    by auto
  from slash_teams_suffix [OF mem] obtain pre where "drop m r = pre @ e" ..
  then have "r = (take m r @ pre) @ e"
    by (metis append_assoc append_take_drop_id)
  with t e show "\<exists>e. r = t @ e \<and> at_end e" by (metis append_eq_conv_conj length_append add_diff_cancel_right')
  from m show "upper_2_4 r \<noteq> []" by auto
qed

lemma tail_team_end_D:
  assumes "tail_team_end r = Some t"
  shows "\<exists>e. r = t @ e \<and> at_end e" and "upper_2_4 r \<noteq> []"
    and "length t \<in> {2, 3, 4}" and "list_all is_upper t"
proof -
  from assms obtain m rest where
    f: "filter (\<lambda>m. at_end (drop m r)) (upper_2_4 r) = m # rest" and t: "t = take m r"
    by (auto simp: tail_team_end_def split: list.splits)
  from f have "m \<in> set (filter (\<lambda>m. at_end (drop m r)) (upper_2_4 r))" by simp
  then have e: "at_end (drop m r)" and m: "m \<in> set (upper_2_4 r)" by auto
  from t e show "\<exists>e. r = t @ e \<and> at_end e" by (metis append_take_drop_id)
  from m show "upper_2_4 r \<noteq> []" by auto
  from upper_2_4_D [OF m] t show "length t \<in> {2, 3, 4}" "list_all is_upper t" by auto
qed

lemma tail_team_D:
  assumes "tail_team r = Some t"
  shows "upper_2_4 r \<noteq> []"
  using assms by (auto simp: tail_team_def split: list.splits)

lemma lazy_prefix_D:
  "lazy_prefix tail g1 rest = Some (p, t) \<Longrightarrow> \<exists>r. g1 @ rest = p @ r \<and> tail r = Some t"
proof (induction rest arbitrary: g1)
  case Nil
  then show ?case by (auto split: option.splits)
next
  case (Cons c cs)
  show ?case
  proof (cases "tail (c # cs)")
    case (Some g2)
    with Cons.prems show ?thesis by auto
  next
    case None
    with Cons.prems have "lazy_prefix tail (g1 @ [c]) cs = Some (p, t)"
      by (auto split: if_splits)
    from Cons.IH [OF this] show ?thesis by simp
  qed
qed

lemma re_match_D:
  assumes "re_match tail s = Some (p, t)"
  shows "\<exists>r. s = p @ r \<and> tail r = Some t"
proof (cases s)
  case Nil
  with assms show ?thesis by (simp add: re_match_def)
next
  case (Cons c cs)
  with assms have "lazy_prefix tail [c] cs = Some (p, t)"
    by (auto simp: re_match_def split: if_splits)
  from lazy_prefix_D [OF this] Cons show ?thesis by simp
qed

lemma at_end_no_final_newline:
  assumes "no_final_newline (p @ t @ e)" "at_end e"
  shows "e = []"
  using assms by (auto simp: at_end_def no_final_newline_def)

lemma upper_pair_append:
  "is_upper a \<Longrightarrow> is_upper b \<Longrightarrow> upper_pair (p @ a # b # cs)"
proof (induction p)
  case Nil
  then show ?case by simp
next
  case (Cons x p)
  then show ?case by (cases "p @ a # b # cs") auto
qed

lemma match_upper_pair:
  assumes "s = p @ r" "upper_2_4 r \<noteq> []"
  shows "upper_pair s"
  using starts_upper_pair [OF assms(2)] assms(1) upper_pair_append by blast

lemma ends_in_team_suffix:
  assumes "length t \<in> {2, 3, 4}" "list_all is_upper t"
  shows "ends_in_team (p @ t)"
  using assms by (auto simp: ends_in_team_def)

text \<open>
  C9, as amended. For an input that does not end in a newline, as every stripped cell text,
  the player name followed by the team is the input. If moreover it has no slash and does
  not end in two to four uppercase letters, the whole input is the player name and the team is
  empty; and so for any input without two adjacent uppercase letters.
\<close>

theorem name_team_split:
  "(no_final_newline s \<longrightarrow>
      fst (extract_player_name_and_team s) @ snd (extract_player_name_and_team s) = s) \<and>
   (no_final_newline s \<and> CHR ''/'' \<notin> set s \<and> \<not> ends_in_team s \<longrightarrow>
      extract_player_name_and_team s = (s, [])) \<and>
   (\<not> upper_pair s \<longrightarrow> extract_player_name_and_team s = (s, []))"
proof (intro conjI impI)
  assume nl: "no_final_newline s"
  show "fst (extract_player_name_and_team s) @ snd (extract_player_name_and_team s) = s"
  proof (cases "CHR ''/'' \<in> set s")
    case True
    show ?thesis
    proof (cases "re_match tail_slash s")
      case (Some pt)
      obtain p t where pt: "pt = (p, t)" by (cases pt)
      from re_match_D [OF Some [unfolded pt]] obtain r where r: "s = p @ r" "tail_slash r = Some t"
        by blast
      from tail_slash_D(1) [OF r(2)] obtain e where e: "r = t @ e" "at_end e" by blast
      with nl r(1) have "e = []" using at_end_no_final_newline by blast
      with True Some pt r(1) e(1) show ?thesis
        by (simp add: extract_player_name_and_team_def)
    next
      case None
      show ?thesis
      proof (cases "re_match tail_team s")
        case (Some pt)
        obtain p t where pt: "pt = (p, t)" by (cases pt)
        from re_match_D [OF Some [unfolded pt]] obtain r where "s = p @ r" by blast
        with True None Some pt show ?thesis
          by (simp add: extract_player_name_and_team_def)
      next
        case None2: None
        with True None show ?thesis by (simp add: extract_player_name_and_team_def)
      qed
    qed
  next
    case False
    show ?thesis
    proof (cases "re_match tail_team_end s")
      case (Some pt)
      obtain p t where pt: "pt = (p, t)" by (cases pt)
      from re_match_D [OF Some [unfolded pt]] obtain r where r: "s = p @ r" "tail_team_end r = Some t"
        by blast
      from tail_team_end_D(1) [OF r(2)] obtain e where e: "r = t @ e" "at_end e" by blast
      with nl r(1) have "e = []" using at_end_no_final_newline by blast
      with False Some pt r(1) e(1) show ?thesis
        by (simp add: extract_player_name_and_team_def)
    next
      case None
      with False show ?thesis by (simp add: extract_player_name_and_team_def)
    qed
  qed
next
  assume a: "no_final_newline s \<and> CHR ''/'' \<notin> set s \<and> \<not> ends_in_team s"
  have "re_match tail_team_end s = None"
  proof (rule ccontr)
    assume "re_match tail_team_end s \<noteq> None"
    then obtain p t where "re_match tail_team_end s = Some (p, t)" by auto
    from re_match_D [OF this] obtain r where r: "s = p @ r" "tail_team_end r = Some t" by blast
    from tail_team_end_D(1) [OF r(2)] obtain e where e: "r = t @ e" "at_end e" by blast
    with a r(1) have "e = []" using at_end_no_final_newline by blast
    with r(1) e(1) have "s = p @ t" by simp
    with tail_team_end_D(3,4) [OF r(2)] have "ends_in_team s"
      using ends_in_team_suffix by blast
    with a show False by simp
  qed
  with a show "extract_player_name_and_team s = (s, [])"
    by (simp add: extract_player_name_and_team_def)
next
  assume np: "\<not> upper_pair s"
  have none: "re_match tail s = None"
    if "\<And>r t. tail r = Some t \<Longrightarrow> upper_2_4 r \<noteq> []" for tail
  proof (rule ccontr)
    assume "re_match tail s \<noteq> None"
    then obtain p t where "re_match tail s = Some (p, t)" by auto
    from re_match_D [OF this] obtain r where r: "s = p @ r" "tail r = Some t" by blast
    from match_upper_pair [OF r(1) that [OF r(2)]] np show False by simp
  qed
  have "re_match tail_slash s = None" "re_match tail_team s = None"
    "re_match tail_team_end s = None"
    using tail_slash_D(2) tail_team_D tail_team_end_D(2) by (auto intro: none)
  then show "extract_player_name_and_team s = (s, [])"
    by (simp add: extract_player_name_and_team_def)
qed

text \<open>The split at a name with a team code, and at a name without one.\<close>

theorem name_team_split_witness:
  "extract_player_name_and_team ''ray allenMIA'' = (''ray allen'', ''MIA'') \<and>
   fst (extract_player_name_and_team ''ray allenMIA'') @
     snd (extract_player_name_and_team ''ray allenMIA'') = ''ray allenMIA'' \<and>
   extract_player_name_and_team ''Nene'' = (''Nene'', []) \<and>
   extract_player_name_and_team ''Yao Ming/c'' = (''Yao Ming/c'', [])"
proof -
  have 1: "no_final_newline ''ray allenMIA''"
    by (simp add: no_final_newline_def newline_def)
  have 2: "no_final_newline ''Nene'' \<and> CHR ''/'' \<notin> set ''Nene'' \<and> \<not> ends_in_team ''Nene''"
    by (simp add: no_final_newline_def newline_def ends_in_team_def is_upper_def)
  have 3: "extract_player_name_and_team ''ray allenMIA'' = (''ray allen'', ''MIA'')"
    by code_simp
  have 4: "\<not> upper_pair ''Yao Ming/c''"
    by (simp add: is_upper_def)
  from name_team_split [of "''ray allenMIA''"] name_team_split [of "''Nene''"]
    name_team_split [of "''Yao Ming/c''"] 1 2 3 4
  show ?thesis by blast
qed

text \<open>
  C9 as stated fails twice. An input with a slash that is not a slash-joined team list goes
  to the fallback pattern and gets a team, though it does not end in uppercase letters; and
  the \<open>$\<close> of the patterns matches before a final newline, which is then lost.
\<close>

theorem name_team_split_counterexample:
  "extract_player_name_and_team ''Fox SAC/sa'' = (''Fox '', ''SAC/sa'') \<and>
   \<not> ends_in_team ''Fox SAC/sa'' \<and>
   re_match tail_slash ''Fox SAC/sa'' = None \<and>
   extract_player_name_and_team (''abLAL'' @ [newline]) = (''ab'', ''LAL'')"
  by code_simp

lemma load_more_A_bound: "snd (load_more_A p n s clicks) \<le> clicks + n"
proof (induction n arbitrary: s clicks)
  case 0
  show ?case by simp
next
  case (Suc n)
  show ?case
  proof (cases "clickable p s")
    case False
    then show ?thesis by simp
  next
    case True
    show ?thesis
    proof (cases "click p s")
      case None
      with True show ?thesis by simp
    next
      case (Some s')
      with True Suc.IH [of s' "clicks + 1"] show ?thesis by simp
    qed
  qed
qed

lemma load_more_B_bound: "snd (load_more_B p n s prev clicks) \<le> clicks + n"
proof (induction n arbitrary: s prev clicks)
  case 0
  show ?case by simp
next
  case (Suc n)
  have step: "\<And>s' prev'. snd (load_more_B p n s' prev' (Suc clicks)) \<le> Suc (clicks + n)"
    using Suc.IH [of _ _ "Suc clicks"] by simp
  show ?case
    by (auto simp: Let_def step split: option.splits)
qed

lemma load_more_A_endless:
  "\<forall>s. clickable p s \<and> click p s \<noteq> None \<Longrightarrow> snd (load_more_A p n s clicks) = clicks + n"
  by (induction n arbitrary: s clicks) (auto split: option.splits)

text \<open>
  C5. Whatever the page does, also when the load-more link stays clickable for ever, the
  loops return, source A's after at most 30 clicks and source B's after at most 20.
\<close>

theorem pagination_click_bound:
  "snd (paginate_A p s) \<le> 30 \<and> snd (paginate_B q t) \<le> 20"
  using load_more_A_bound [of p max_clicks_A s 0] load_more_B_bound [of q max_clicks_B t 0 0]
  by (simp add: paginate_A_def paginate_B_def max_clicks_A_def max_clicks_B_def)

text \<open>
  C6. In source B's loop, at any iteration, when the link is clickable, the page has two
  tables before and after the click and the click leaves the row count as it was, the loop
  ends with that click: the page after it and one more click are the result, whatever the
  number of iterations left.
\<close>

theorem stable_row_count_stops_B:
  assumes "clickable p s" and "click p s = Some s'"
    and "row_count p s = Some k" and "row_count p s' = Some k"
  shows "load_more_B p (Suc n) s prev clicks = (s', clicks + 1)"
  using assms by simp

theorem stable_row_count_stops_B_witness:
  "load_more_B stalled_page (Suc 17) 120 100 2 = (120, 3) \<and> paginate_B stalled_page 50 = (120, 3)"
proof -
  have "load_more_B stalled_page (Suc 17) 120 100 2 = (120, 2 + 1)"
    by (rule stable_row_count_stops_B [where k = 120]) (simp_all add: stalled_page_def)
  moreover have "paginate_B stalled_page 50 = (120, 3)"
    by (simp add: paginate_B_def max_clicks_B_def stalled_page_def eval_nat_numeral)
  ultimately show ?thesis by simp
qed

lemma paginate_endless: "snd (paginate_A endless_page 50) = 30"
  using load_more_A_endless [where p = endless_page and n = max_clicks_A and s = 50 and clicks = 0]
  by (simp add: paginate_A_def max_clicks_A_def endless_page_def)

section \<open>Facts about extraction\<close>

lemma lstrip_with_done:
  "find (\<lambda>w. w \<noteq> [] \<and> take (length w) (lstrip_with ws s) = w) ws = None"
proof (induction ws s rule: lstrip_with.induct)
  case (1 ws s)
  show ?case
  proof (cases "find (\<lambda>w. w \<noteq> [] \<and> take (length w) s = w) ws")
    case None
    then have "lstrip_with ws s = s" by simp
    with None show ?thesis by simp
  next
    case (Some w)
    then have "lstrip_with ws s = lstrip_with ws (drop (length w) s)" by simp
    with "1.IH" [OF Some] show ?thesis by simp
  qed
qed

lemma strip_no_final_newline: "no_final_newline (strip s)"
proof (rule ccontr)
  assume a: "\<not> no_final_newline (strip s)"
  let ?y = "lstrip_with (map rev whitespace) (rev (lstrip_with whitespace s))"
  from a have "strip s \<noteq> []" and "last (strip s) = newline"
    by (auto simp: no_final_newline_def)
  then have "?y \<noteq> []" and "hd ?y = newline"
    by (auto simp: strip_def last_rev)
  then have "take (length [newline]) ?y = [newline]"
    by (cases ?y) auto
  moreover have "[newline] \<in> set (map rev whitespace)"
    by (simp add: whitespace_def newline_def)
  ultimately have "find (\<lambda>w. w \<noteq> [] \<and> take (length w) ?y = w) (map rev whitespace) \<noteq> None"
    unfolding find_None_iff by blast
  with lstrip_with_done [of "map rev whitespace" "rev (lstrip_with whitespace s)"]
  show False by simp
qed

lemma map_of_put:
  "map_of (put cells i f r) g =
     (if g = f \<and> i < length cells then Some (Str (strip (cells ! i))) else map_of r g)"
  by (simp add: put_def update_conv')

lemma fold_put_map_of:
  assumes "distinct (map snd L)"
  shows "map_of (fold (\<lambda>(i, f). put cells i f) L r) g =
     (case map_of (map (\<lambda>(i, f). (f, i)) L) g of
        None \<Rightarrow> map_of r g
      | Some i \<Rightarrow> if i < length cells then Some (Str (strip (cells ! i))) else map_of r g)"
  using assms
proof (induction L arbitrary: r)
  case Nil
  show ?case by simp
next
  case (Cons x L)
  obtain i f where x: "x = (i, f)" by (cases x)
  from Cons.prems x have f: "f \<notin> snd ` set L" and d: "distinct (map snd L)" by auto
  from f have none: "map_of (map (\<lambda>(i, f). (f, i)) L) f = None"
    by (force simp: map_of_eq_None_iff)
  show ?case
  proof (cases "g = f")
    case True
    with Cons.IH [OF d, of "put cells i f r"] none show ?thesis
      by (simp add: x map_of_put)
  next
    case False
    with Cons.IH [OF d, of "put cells i f r"] show ?thesis
      by (simp add: x map_of_put split: option.splits)
  qed
qed

lemma map_of_row_data_A:
  "map_of (row_data_A cells) f =
     (case map_of documented_layout f of
        None \<Rightarrow> None
      | Some i \<Rightarrow> if i < length cells then Some (Str (strip (cells ! i))) else None)"
  unfolding row_data_A_def
  by (subst fold_put_map_of) (simp_all add: documented_layout_def)

lemma lookup_row_data_A: "lookup (row_data_A cells) f = documented_field cells f"
  by (simp add: lookup_def documented_field_def map_of_row_data_A split: option.splits)

lemma keys_row_data_A: "f \<in> set (map fst (row_data_A cells)) \<longleftrightarrow> has_field cells f"
proof -
  have "f \<in> set (map fst (row_data_A cells)) \<longleftrightarrow> map_of (row_data_A cells) f \<noteq> None"
    using map_of_eq_None_iff [of "row_data_A cells" f] by auto
  then show ?thesis
    by (simp add: map_of_row_data_A has_field_def split: option.splits)
qed

lemma set_first_seen: "set (first_seen xs) = set xs"
  by (simp add: first_seen_def)

lemma distinct_first_seen: "distinct (first_seen xs)"
  by (simp add: first_seen_def)

lemma DataFrame_facts:
  "distinct (columns (DataFrame rs))" "rectangular (DataFrame rs)"
  "set (columns (DataFrame rs)) = (\<Union>r\<in>set rs. set (map fst r))"
  by (auto simp: DataFrame_def Let_def distinct_first_seen set_first_seen rectangular_def
      list_all_iff keys_reindex)

lemma rows_DataFrame: "rows (DataFrame rs) = map (reindex (columns (DataFrame rs))) rs"
  by (simp add: DataFrame_def Let_def)

lemma select_present:
  "select (filter (\<lambda>col. col \<in> set (columns df)) cols) df =
     Inr \<lparr>columns = filter (\<lambda>col. col \<in> set (columns df)) cols,
          rows = map (reindex (filter (\<lambda>col. col \<in> set (columns df)) cols)) (rows df)\<rparr>"
  by (auto simp: select_def)

lemma update_absent: "k \<notin> set (map fst r) \<Longrightarrow> AList.update k v r = r @ [(k, v)]"
  by (induction r) auto

lemma length_rows_set_col: "length (rows (set_col c v df)) = length (rows df)"
  by (simp add: set_col_def)

lemma length_rows_DataFrame: "length (rows (DataFrame rs)) = length rs"
  by (simp add: DataFrame_def Let_def)

text \<open>What lines 101-191 return for a player table \<open>trs\<close> with its header row and a data row.\<close>

lemma extracted_A:
  fixes trs :: "string list list"
  defines "wide \<equiv> filter (\<lambda>cells. 20 \<le> length cells) (drop 1 trs)"
  defines "present \<equiv> filter (\<lambda>field. list_ex (\<lambda>cells. has_field cells field) wide) desired_columns"
  shows "(case select (filter (\<lambda>col. col \<in> set (columns (DataFrame (map row_data_A
                  (filter (\<lambda>cells. \<not> length cells < 20) (drop 1 trs))))))
                desired_columns)
             (DataFrame (map row_data_A (filter (\<lambda>cells. \<not> length cells < 20) (drop 1 trs)))) of
          Inl e \<Rightarrow> Inl e
        | Inr df' \<Rightarrow> Inr (set_col ''Year'' (Num year) df')) =
     Inr \<lparr>columns = present @ [''Year''],
          rows = map (\<lambda>cells. map (\<lambda>field. (field, documented_field cells field)) present @
                              [(''Year'', Num year)]) wide\<rparr>"
proof -
  have k: "filter (\<lambda>cells. \<not> length cells < 20) (drop 1 trs) = wide"
    unfolding wide_def by (simp add: not_less)
  let ?df = "DataFrame (map row_data_A wide)"
  have cols: "\<And>f. f \<in> set (columns ?df) \<longleftrightarrow> list_ex (\<lambda>cells. has_field cells f) wide"
    unfolding DataFrame_facts(3) list_ex_iff using keys_row_data_A by auto
  then have final: "filter (\<lambda>col. col \<in> set (columns ?df)) desired_columns = present"
    by (simp add: present_def)
  have sub: "set present \<subseteq> set (columns ?df)"
    using cols by (auto simp: present_def)
  have "''Year'' \<notin> set desired_columns"
    by (simp add: desired_columns_def)
  then have year: "''Year'' \<notin> set present"
    by (simp add: present_def)
  have row: "AList.update ''Year'' (Num year)
        (reindex present (reindex (columns ?df) (row_data_A cells))) =
      map (\<lambda>field. (field, documented_field cells field)) present @ [(''Year'', Num year)]"
    for cells
  proof -
    have a: "reindex present (reindex (columns ?df) (row_data_A cells)) =
        map (\<lambda>field. (field, documented_field cells field)) present"
      by (simp add: reindex_reindex [OF sub]) (simp add: reindex_def lookup_row_data_A)
    have b: "''Year'' \<notin> set (map fst (map (\<lambda>field. (field, documented_field cells field)) present))"
      using year by (simp add: comp_def)
    show ?thesis unfolding a by (rule update_absent [OF b])
  qed
  have sel: "select present ?df =
      Inr \<lparr>columns = present, rows = map (reindex present) (rows ?df)\<rparr>"
    using select_present [of ?df desired_columns] unfolding final .
  show ?thesis
    unfolding k final sel
    by (simp add: set_col_def year rows_DataFrame row comp_def)
qed

lemma paginate_A_still: "\<not> clickable p s \<Longrightarrow> paginate_A p s = (s, 0)"
  by (simp add: paginate_A_def max_clicks_A_def eval_nat_numeral)

lemma paginate_B_still: "\<not> clickable p s \<Longrightarrow> paginate_B p s = (s, 0)"
  by (simp add: paginate_B_def max_clicks_B_def eval_nat_numeral)

lemma still_pages:
  "fst (paginate_A still_page_A s) = s" "tables_A still_page_A s = s"
  "fst (paginate_B still_page_B t) = t" "tables_B still_page_B t = t"
  by (simp_all add: paginate_A_still paginate_B_still still_page_A_def still_page_B_def)

lemma scrape_data_A_cases:
  "scrape_data_A year p s =
     (if tables_A p s = [] then Inl TimeoutException
      else if length (tables_A p (fst (paginate_A p s))) < 2
      then Inl (ValueError ''Player stats table not found'')
      else if length (tables_A p (fst (paginate_A p s)) ! 1) < 2
      then Inl (ValueError ''No data rows found in table'')
      else
        (let wide = filter (\<lambda>cells. 20 \<le> length cells)
                      (drop 1 (tables_A p (fst (paginate_A p s)) ! 1));
             present = filter (\<lambda>field. list_ex (\<lambda>cells. has_field cells field) wide)
                         desired_columns
         in Inr \<lparr>columns = present @ [''Year''],
                 rows = map (\<lambda>cells. map (\<lambda>field. (field, documented_field cells field)) present @
                                     [(''Year'', Num year)]) wide\<rparr>))"
  unfolding scrape_data_A_def Let_def extracted_A by simp

text \<open>
  C3. Source A's extraction returns one record for every data row of the player table that
  has at least 20 cells, in the order of the rows, and in every record each field is the
  stripped text of the cell at its documented position: cell 0 for Rk, 2 for Class, 4 for
  Player, 6 for Team, 7 for Conf, 10, 11, 13, 16 and 18 to 24 for Min% to TO, 26 to 28 for
  Blk, Stl and FTR, 39, 41 and 43 for 2P, 3P/100 and 3P. A field whose cell the row lacks
  is null; the columns are the whitelisted fields some record has, then Year. For a row
  with all 44 cells the record is spelled out.
\<close>

theorem positional_mapping_A:
  assumes "tables_A p s \<noteq> []"
    and "2 \<le> length (tables_A p (fst (paginate_A p s)))"
    and "2 \<le> length (tables_A p (fst (paginate_A p s)) ! 1)"
  shows "scrape_data_A year p s =
     (let wide = filter (\<lambda>cells. 20 \<le> length cells)
                   (drop 1 (tables_A p (fst (paginate_A p s)) ! 1));
          present = filter (\<lambda>field. list_ex (\<lambda>cells. has_field cells field) wide)
                      desired_columns
      in Inr \<lparr>columns = present @ [''Year''],
              rows = map (\<lambda>cells. map (\<lambda>field. (field, documented_field cells field)) present @
                                  [(''Year'', Num year)]) wide\<rparr>) \<and>
     (44 \<le> length cells \<longrightarrow>
        map (\<lambda>field. (field, documented_field cells field)) desired_columns =
        [(''Rk'', Str (strip (cells ! 0))), (''Player'', Str (strip (cells ! 4))),
         (''Class'', Str (strip (cells ! 2))), (''Team'', Str (strip (cells ! 6))),
         (''Conf'', Str (strip (cells ! 7))), (''Min%'', Str (strip (cells ! 10))),
         (''PRPG!'', Str (strip (cells ! 11))), (''BPM'', Str (strip (cells ! 13))),
         (''ORtg'', Str (strip (cells ! 16))), (''Usg'', Str (strip (cells ! 18))),
         (''eFG'', Str (strip (cells ! 19))), (''TS'', Str (strip (cells ! 20))),
         (''OR'', Str (strip (cells ! 21))), (''DR'', Str (strip (cells ! 22))),
         (''Ast'', Str (strip (cells ! 23))), (''TO'', Str (strip (cells ! 24))),
         (''Blk'', Str (strip (cells ! 26))), (''Stl'', Str (strip (cells ! 27))),
         (''FTR'', Str (strip (cells ! 28))), (''2P'', Str (strip (cells ! 39))),
         (''3P/100'', Str (strip (cells ! 41))), (''3P'', Str (strip (cells ! 43)))])"
proof
  show "scrape_data_A year p s =
     (let wide = filter (\<lambda>cells. 20 \<le> length cells)
                   (drop 1 (tables_A p (fst (paginate_A p s)) ! 1));
          present = filter (\<lambda>field. list_ex (\<lambda>cells. has_field cells field) wide)
                      desired_columns
      in Inr \<lparr>columns = present @ [''Year''],
              rows = map (\<lambda>cells. map (\<lambda>field. (field, documented_field cells field)) present @
                                  [(''Year'', Num year)]) wide\<rparr>)"
    unfolding scrape_data_A_cases using assms by simp
  show "44 \<le> length cells \<longrightarrow>
        map (\<lambda>field. (field, documented_field cells field)) desired_columns =
        [(''Rk'', Str (strip (cells ! 0))), (''Player'', Str (strip (cells ! 4))),
         (''Class'', Str (strip (cells ! 2))), (''Team'', Str (strip (cells ! 6))),
         (''Conf'', Str (strip (cells ! 7))), (''Min%'', Str (strip (cells ! 10))),
         (''PRPG!'', Str (strip (cells ! 11))), (''BPM'', Str (strip (cells ! 13))),
         (''ORtg'', Str (strip (cells ! 16))), (''Usg'', Str (strip (cells ! 18))),
         (''eFG'', Str (strip (cells ! 19))), (''TS'', Str (strip (cells ! 20))),
         (''OR'', Str (strip (cells ! 21))), (''DR'', Str (strip (cells ! 22))),
         (''Ast'', Str (strip (cells ! 23))), (''TO'', Str (strip (cells ! 24))),
         (''Blk'', Str (strip (cells ! 26))), (''Stl'', Str (strip (cells ! 27))),
         (''FTR'', Str (strip (cells ! 28))), (''2P'', Str (strip (cells ! 39))),
         (''3P/100'', Str (strip (cells ! 41))), (''3P'', Str (strip (cells ! 43)))]"
    by (simp add: desired_columns_def documented_field_def documented_layout_def)
qed

text \<open>
  The mapping at a page with a header row, a separator row, a full row and a row of 21
  cells: two records, the second null from OR on.
\<close>

theorem positional_mapping_A_witness:
  "scrape_data_A 2024 still_page_A torvik_page =
     Inr \<lparr>columns = desired_columns @ [''Year''],
          rows = [
                 [(''Rk'', Str ''1''), (''Player'', Str ''Zach Edey''), (''Class'', Str ''Sr''),
                  (''Team'', Str ''Purdue''), (''Conf'', Str ''B10''), (''Min%'', Str ''79.3''),
                  (''PRPG!'', Str ''7.9''), (''BPM'', Str ''14.1''), (''ORtg'', Str ''128.6''),
                  (''Usg'', Str ''32.3''), (''eFG'', Str ''62.4''), (''TS'', Str ''66.1''),
                  (''OR'', Str ''15.3''), (''DR'', Str ''26.6''), (''Ast'', Str ''13.5''),
                  (''TO'', Str ''14.2''), (''Blk'', Str ''7.2''), (''Stl'', Str ''.6''),
                  (''FTR'', Str ''85.7''), (''2P'', Str ''.625''), (''3P/100'', Str ''0.1''),
                  (''3P'', Str ''.500''), (''Year'', Num 2024)],
                 [(''Rk'', Str ''2''), (''Player'', Str ''RJ Davis''), (''Class'', Str ''Jr''),
                  (''Team'', Str ''North Carolina''), (''Conf'', Str ''ACC''),
                  (''Min%'', Str ''85.1''), (''PRPG!'', Str ''6.0''), (''BPM'', Str ''9.0''),
                  (''ORtg'', Str ''118.1''), (''Usg'', Str ''27.2''), (''eFG'', Str ''53.5''),
                  (''TS'', Str ''57.9''), (''OR'', Null), (''DR'', Null), (''Ast'', Null),
                  (''TO'', Null), (''Blk'', Null), (''Stl'', Null), (''FTR'', Null),
                  (''2P'', Null), (''3P/100'', Null), (''3P'', Null), (''Year'', Num 2024)]]\<rparr>"
proof -
  have "tables_A still_page_A torvik_page \<noteq> []"
    "2 \<le> length (tables_A still_page_A (fst (paginate_A still_page_A torvik_page)))"
    "2 \<le> length (tables_A still_page_A (fst (paginate_A still_page_A torvik_page)) ! 1)"
    unfolding still_pages by (simp_all add: torvik_page_def)
  from positional_mapping_A [OF this, of 2024]
  have "scrape_data_A 2024 still_page_A torvik_page =
     (let wide = filter (\<lambda>cells. 20 \<le> length cells)
                   (drop 1 (tables_A still_page_A
                      (fst (paginate_A still_page_A torvik_page)) ! 1));
          present = filter (\<lambda>field. list_ex (\<lambda>cells. has_field cells field) wide)
                      desired_columns
      in Inr \<lparr>columns = present @ [''Year''],
              rows = map (\<lambda>cells. map (\<lambda>field. (field, documented_field cells field)) present @
                                  [(''Year'', Num 2024)]) wide\<rparr>)"
    by blast
  also have "\<dots> =
     Inr \<lparr>columns = desired_columns @ [''Year''],
          rows = [
                 [(''Rk'', Str ''1''), (''Player'', Str ''Zach Edey''), (''Class'', Str ''Sr''),
                  (''Team'', Str ''Purdue''), (''Conf'', Str ''B10''), (''Min%'', Str ''79.3''),
                  (''PRPG!'', Str ''7.9''), (''BPM'', Str ''14.1''), (''ORtg'', Str ''128.6''),
                  (''Usg'', Str ''32.3''), (''eFG'', Str ''62.4''), (''TS'', Str ''66.1''),
                  (''OR'', Str ''15.3''), (''DR'', Str ''26.6''), (''Ast'', Str ''13.5''),
                  (''TO'', Str ''14.2''), (''Blk'', Str ''7.2''), (''Stl'', Str ''.6''),
                  (''FTR'', Str ''85.7''), (''2P'', Str ''.625''), (''3P/100'', Str ''0.1''),
                  (''3P'', Str ''.500''), (''Year'', Num 2024)],
                 [(''Rk'', Str ''2''), (''Player'', Str ''RJ Davis''), (''Class'', Str ''Jr''),
                  (''Team'', Str ''North Carolina''), (''Conf'', Str ''ACC''),
                  (''Min%'', Str ''85.1''), (''PRPG!'', Str ''6.0''), (''BPM'', Str ''9.0''),
                  (''ORtg'', Str ''118.1''), (''Usg'', Str ''27.2''), (''eFG'', Str ''53.5''),
                  (''TS'', Str ''57.9''), (''OR'', Null), (''DR'', Null), (''Ast'', Null),
                  (''TO'', Null), (''Blk'', Null), (''Stl'', Null), (''FTR'', Null),
                  (''2P'', Null), (''3P/100'', Null), (''3P'', Null), (''Year'', Num 2024)]]\<rparr>"
    by code_simp
  finally show ?thesis .
qed

lemma length_map_filter_le: "length (List.map_filter f xs) \<le> length xs"
  by (simp add: List.map_filter_def)

lemma scrape_data_B_cases:
  "scrape_data_B year p s =
     (if tables_B p s = [] then Inl TimeoutException
      else if length (tables_B p (fst (paginate_B p s))) < 2
      then Inl (ValueError (''Expected 2 tables but found '' @
                            (if length (tables_B p (fst (paginate_B p s))) = 0
                             then ''0'' else ''1'')))
      else case thead (tables_B p (fst (paginate_B p s)) ! 1) of
             None \<Rightarrow> Inl NoSuchElementException
           | Some ths \<Rightarrow>
               Inr (set_col ''Year'' (Num year)
                      (DataFrame (List.map_filter (parse_row_B (map strip ths))
                         (zip (tbody (tables_B p (fst (paginate_B p s)) ! 0))
                              (tbody (tables_B p (fst (paginate_B p s)) ! 1)))))))"
  by (simp add: scrape_data_B_def Let_def split: option.splits)

lemma run_season_failed:
  "scrape year = Inl e \<Longrightarrow>
     run_season scrape app year (store, successful, failed) = (store, successful, failed + 1)"
  by (simp add: run_season_def)

text \<open>Every season of the list gets its one attempt, whatever fails.\<close>

lemma every_season_attempted:
  "fold (run_season scrape app) years (store, successful, failed) = (store', successful', failed')
     \<Longrightarrow> successful' + failed' = successful + failed + length years"
proof (induction years arbitrary: store successful failed)
  case Nil
  then show ?case by simp
next
  case (Cons y years)
  obtain st a b where step: "run_season scrape app y (store, successful, failed) = (st, a, b)"
    by (cases "run_season scrape app y (store, successful, failed)") auto
  then have "a + b = successful + failed + 1"
    by (auto simp: run_season_def split: sum.splits)
  moreover from Cons.prems step have "successful' + failed' = a + b + length years"
    using Cons.IH [of st a b] by simp
  ultimately show ?case by simp
qed

lemma main_seasons:
  "main_A p open_page store = (store', successful, failed) \<Longrightarrow> successful + failed = 18"
  "main_B q open_page' store = (store', successful, failed) \<Longrightarrow> successful + failed = 24"
  unfolding main_A_def main_B_def
  by (drule every_season_attempted, simp)+

text \<open>
  C4, as amended. Source A's extraction raises an error exactly when the page shows no
  table, or the loaded page has fewer than two tables, or its player table has fewer than two
  rows; otherwise it returns at most one record per data row. Source B's extraction raises an
  error exactly when the page shows no table, or the loaded page has fewer than two tables,
  or its stats table has no header section; otherwise it returns at most one record per
  joined row, none when the tables have no data row. A season whose extraction raises is
  counted as failed by the season loop, which leaves the sheet as it was and goes on.
\<close>

theorem extraction_failure:
  "((\<exists>e. scrape_data_A year pa s = Inl e) =
      (tables_A pa s = [] \<or> length (tables_A pa (fst (paginate_A pa s))) < 2 \<or>
       length (tables_A pa (fst (paginate_A pa s)) ! 1) < 2)) \<and>
   (\<forall>df. scrape_data_A year pa s = Inr df \<longrightarrow>
      length (rows df) \<le> length (tables_A pa (fst (paginate_A pa s)) ! 1) - 1) \<and>
   ((\<exists>e. scrape_data_B year pb t = Inl e) =
      (tables_B pb t = [] \<or> length (tables_B pb (fst (paginate_B pb t))) < 2 \<or>
       thead (tables_B pb (fst (paginate_B pb t)) ! 1) = None)) \<and>
   (\<forall>df. scrape_data_B year pb t = Inr df \<longrightarrow>
      length (rows df) \<le> min (length (tbody (tables_B pb (fst (paginate_B pb t)) ! 0)))
                             (length (tbody (tables_B pb (fst (paginate_B pb t)) ! 1)))) \<and>
   ((\<exists>e. scrape_data_A year pa (open_a year) = Inl e) \<longrightarrow>
      run_season (\<lambda>y. scrape_data_A y pa (open_a y)) append_to_excel_A year
        (store, successful, failed) = (store, successful, failed + 1)) \<and>
   ((\<exists>e. scrape_data_B year pb (open_b year) = Inl e) \<longrightarrow>
      run_season (\<lambda>y. scrape_data_B y pb (open_b y)) append_to_excel_B year
        (store, successful, failed) = (store, successful, failed + 1))"
proof (intro conjI)
  show "(\<exists>e. scrape_data_A year pa s = Inl e) =
      (tables_A pa s = [] \<or> length (tables_A pa (fst (paginate_A pa s))) < 2 \<or>
       length (tables_A pa (fst (paginate_A pa s)) ! 1) < 2)"
    unfolding scrape_data_A_cases by (auto simp: Let_def)
  show "\<forall>df. scrape_data_A year pa s = Inr df \<longrightarrow>
      length (rows df) \<le> length (tables_A pa (fst (paginate_A pa s)) ! 1) - 1"
  proof (intro allI impI)
    fix df assume "scrape_data_A year pa s = Inr df"
    then have "length (rows df) =
        length (filter (\<lambda>cells. 20 \<le> length cells)
                  (drop 1 (tables_A pa (fst (paginate_A pa s)) ! 1)))"
      unfolding scrape_data_A_cases by (auto simp: Let_def split: if_splits)
    also have "\<dots> \<le> length (drop 1 (tables_A pa (fst (paginate_A pa s)) ! 1))"
      by (rule length_filter_le)
    finally show "length (rows df) \<le> length (tables_A pa (fst (paginate_A pa s)) ! 1) - 1"
      by simp
  qed
  show "(\<exists>e. scrape_data_B year pb t = Inl e) =
      (tables_B pb t = [] \<or> length (tables_B pb (fst (paginate_B pb t))) < 2 \<or>
       thead (tables_B pb (fst (paginate_B pb t)) ! 1) = None)"
    unfolding scrape_data_B_cases by (auto split: option.splits)
  show "\<forall>df. scrape_data_B year pb t = Inr df \<longrightarrow>
      length (rows df) \<le> min (length (tbody (tables_B pb (fst (paginate_B pb t)) ! 0)))
                             (length (tbody (tables_B pb (fst (paginate_B pb t)) ! 1)))"
  proof (intro allI impI)
    fix df assume "scrape_data_B year pb t = Inr df"
    then obtain ths where "df = set_col ''Year'' (Num year)
        (DataFrame (List.map_filter (parse_row_B (map strip ths))
           (zip (tbody (tables_B pb (fst (paginate_B pb t)) ! 0))
                (tbody (tables_B pb (fst (paginate_B pb t)) ! 1)))))"
      unfolding scrape_data_B_cases by (auto split: if_splits option.splits)
    then show "length (rows df) \<le> min (length (tbody (tables_B pb (fst (paginate_B pb t)) ! 0)))
                             (length (tbody (tables_B pb (fst (paginate_B pb t)) ! 1)))"
      using length_map_filter_le [of "parse_row_B (map strip ths)"
          "zip (tbody (tables_B pb (fst (paginate_B pb t)) ! 0))
               (tbody (tables_B pb (fst (paginate_B pb t)) ! 1))"]
      by (simp add: length_rows_set_col length_rows_DataFrame)
  qed
  show "(\<exists>e. scrape_data_A year pa (open_a year) = Inl e) \<longrightarrow>
      run_season (\<lambda>y. scrape_data_A y pa (open_a y)) append_to_excel_A year
        (store, successful, failed) = (store, successful, failed + 1)"
    by (auto simp: run_season_def)
  show "(\<exists>e. scrape_data_B year pb (open_b year) = Inl e) \<longrightarrow>
      run_season (\<lambda>y. scrape_data_B y pb (open_b y)) append_to_excel_B year
        (store, successful, failed) = (store, successful, failed + 1)"
    by (auto simp: run_season_def)
qed

text \<open>
  Both extractions on a page with no table, with one table only and with data; source B's on
  a page whose second table has no header section; and a failed season in the loop, which
  keeps the sheet it found.
\<close>

theorem extraction_failure_witness:
  "(\<exists>e. scrape_data_A 2024 still_page_A [] = Inl e) \<and>
   (\<exists>e. scrape_data_A 2024 still_page_A (take 1 torvik_page) = Inl e) \<and>
   (\<exists>df. scrape_data_A 2024 still_page_A torvik_page = Inr df \<and> length (rows df) \<le> 3) \<and>
   (\<exists>e. scrape_data_B 2024 still_page_B [] = Inl e) \<and>
   (\<exists>e. scrape_data_B 2024 still_page_B (take 1 espn_page) = Inl e) \<and>
   (\<exists>e. scrape_data_B 2024 still_page_B espn_bare_page = Inl e) \<and>
   (\<exists>df. scrape_data_B 2024 still_page_B espn_page = Inr df \<and> length (rows df) \<le> 2) \<and>
   run_season (\<lambda>y. scrape_data_B y still_page_B (if y = 2024 then espn_bare_page else espn_page))
     append_to_excel_B 2024 (Some sheet_2022, 3, 1) = (Some sheet_2022, 3, 2)"
proof -
  note ef = extraction_failure [where pa = still_page_A and pb = still_page_B and year = 2024,
      unfolded still_pages]
  have 1: "\<exists>e. scrape_data_A 2024 still_page_A [] = Inl e"
    using ef [where s = "[]"] by simp
  have 2: "\<exists>e. scrape_data_A 2024 still_page_A (take 1 torvik_page) = Inl e"
    using ef [where s = "take 1 torvik_page"] by (simp add: torvik_page_def)
  have "\<not> (torvik_page = [] \<or> length torvik_page < 2 \<or> length (torvik_page ! 1) < 2)"
    by (simp add: torvik_page_def)
  with ef [where s = torvik_page]
  have "\<exists>df. scrape_data_A 2024 still_page_A torvik_page = Inr df \<and>
      length (rows df) \<le> length (torvik_page ! 1) - 1"
    by (cases "scrape_data_A 2024 still_page_A torvik_page") auto
  moreover have "length (torvik_page ! 1) - 1 = 3"
    by (simp add: torvik_page_def)
  ultimately have 3: "\<exists>df. scrape_data_A 2024 still_page_A torvik_page = Inr df \<and>
      length (rows df) \<le> 3"
    by (simp only:)
  have 4: "\<exists>e. scrape_data_B 2024 still_page_B [] = Inl e"
    using ef [where t = "[]"] by simp
  have 5: "\<exists>e. scrape_data_B 2024 still_page_B (take 1 espn_page) = Inl e"
    using ef [where t = "take 1 espn_page"] by (simp add: espn_page_def)
  have 6: "\<exists>e. scrape_data_B 2024 still_page_B espn_bare_page = Inl e"
    using ef [where t = espn_bare_page] by (simp add: espn_bare_page_def)
  have "\<not> (espn_page = [] \<or> length espn_page < 2 \<or> thead (espn_page ! 1) = None)"
    by (simp add: espn_page_def)
  with ef [where t = espn_page]
  have "\<exists>df. scrape_data_B 2024 still_page_B espn_page = Inr df \<and>
      length (rows df) \<le> min (length (tbody (espn_page ! 0))) (length (tbody (espn_page ! 1)))"
    by (cases "scrape_data_B 2024 still_page_B espn_page") auto
  moreover have "min (length (tbody (espn_page ! 0))) (length (tbody (espn_page ! 1))) = 2"
    by (simp add: espn_page_def)
  ultimately have 7: "\<exists>df. scrape_data_B 2024 still_page_B espn_page = Inr df \<and>
      length (rows df) \<le> 2"
    by (simp only:)
  have 8: "run_season
      (\<lambda>y. scrape_data_B y still_page_B (if y = 2024 then espn_bare_page else espn_page))
      append_to_excel_B 2024 (Some sheet_2022, 3, 1) = (Some sheet_2022, 3, 2)"
    using ef [where open_b = "\<lambda>y. if y = 2024 then espn_bare_page else espn_page"
        and store = "Some sheet_2022" and successful = 3 and failed = 1] 6
    by simp
  from 1 2 3 4 5 6 7 8 show ?thesis by (intro conjI)
qed

text \<open>
  C4 as stated fails for source B: a document with its two tables, headers and no data row
  has fewer than two rows and is not refused; extraction returns no record.
\<close>

theorem extraction_failure_counterexample:
  "length espn_blank_page = 2 \<and> tbody (espn_blank_page ! 0) = [] \<and>
   tbody (espn_blank_page ! 1) = [] \<and>
   scrape_data_B 2024 still_page_B espn_blank_page = Inr \<lparr>columns = [''Year''], rows = []\<rparr>"
  by code_simp

lemma put_keys: "set (map fst r) \<subseteq> set (map fst (put cells j h r))"
proof (cases "length cells > j")
  case True
  have "set (map fst r) \<subseteq> set (map fst (AList.update h v r))" for v
    unfolding update_keys by auto
  with True show ?thesis by (simp only: put_def if_True)
next
  case False
  then show ?thesis by (simp add: put_def)
qed

lemma fold_put_keys:
  "set (map fst r) \<subseteq> set (map fst (fold (\<lambda>(j, header). put cells j header) xs r))"
proof (induction xs arbitrary: r)
  case Nil
  show ?case by simp
next
  case (Cons x xs)
  obtain j h where x: "x = (j, h)" by (cases x)
  have "set (map fst r) \<subseteq> set (map fst (put cells j h r))" by (rule put_keys)
  also have "\<dots> \<subseteq> set (map fst (fold (\<lambda>(j, header). put cells j header) xs (put cells j h r)))"
    by (rule Cons.IH)
  finally show ?case by (simp add: x)
qed

lemma parse_row_B_keys:
  assumes "parse_row_B hs nr = Some d"
  shows "{''RK'', ''Player'', ''Team''} \<subseteq> set (map fst d)"
proof -
  from assms obtain init where d: "d = fold (\<lambda>(j, header). put (snd nr) j header) (enumerate 0 hs) init"
    and init: "map fst init = [''RK'', ''Player'', ''Team'']"
    by (auto simp: parse_row_B_def Let_def split: if_splits prod.splits)
  from fold_put_keys [of init "snd nr" "enumerate 0 hs"] d init show ?thesis by auto
qed

lemma set_col_facts:
  assumes "distinct (columns df)" "rectangular df"
  shows "distinct (columns (set_col c v df))" "rectangular (set_col c v df)"
    "set (columns (set_col c v df)) = insert c (set (columns df))"
  using assms by (auto simp: set_col_def rectangular_def list_all_iff update_keys)

lemma scrape_data_B_frame:
  assumes "scrape_data_B year p s = Inr df"
  shows "distinct (columns df)" and "rectangular df"
    and "\<not> empty_df df \<Longrightarrow> {''RK'', ''Player'', ''Team'', ''Year''} \<subseteq> set (columns df)"
proof -
  from assms obtain ths xs where
    df0: "df = set_col ''Year'' (Num year) (DataFrame (List.map_filter (parse_row_B ths) xs))"
    unfolding scrape_data_B_cases by (auto split: if_splits option.splits)
  define rs where "rs = List.map_filter (parse_row_B ths) xs"
  have df: "df = set_col ''Year'' (Num year) (DataFrame rs)"
    by (simp add: df0 rs_def)
  have rs: "\<forall>d\<in>set rs. \<exists>hs nr. parse_row_B hs nr = Some d"
    by (auto simp: rs_def List.map_filter_def)
  show "distinct (columns df)" "rectangular df"
    unfolding df by (rule set_col_facts [OF DataFrame_facts(1,2)])+
  assume "\<not> empty_df df"
  then have "rs \<noteq> []"
    by (auto simp: df empty_df_def set_col_def DataFrame_def Let_def)
  then obtain d where d: "d \<in> set rs" by (cases rs) auto
  with rs obtain hs nr where "parse_row_B hs nr = Some d" by blast
  from parse_row_B_keys [OF this] d
  have "{''RK'', ''Player'', ''Team''} \<subseteq> set (columns (DataFrame rs))"
    unfolding DataFrame_facts(3) by blast
  then show "{''RK'', ''Player'', ''Team'', ''Year''} \<subseteq> set (columns df)"
    unfolding df set_col_facts(3) [OF DataFrame_facts(1,2)] by auto
qed

lemma column_order_of_spec:
  assumes "distinct cs" "{''RK'', ''Player'', ''Team'', ''Year''} \<subseteq> set cs"
  shows "column_order_of cs =
     [''RK'', ''Player'', ''Team''] @
     sorted_list_of_set (set cs - {''RK'', ''Player'', ''Team'', ''Year''}) @ [''Year'']"
proof -
  let ?P = "\<lambda>col. col \<notin> set priority_cols \<and> col \<noteq> ''Year''"
  have "sort (filter ?P cs) = sorted_list_of_set (set (filter ?P cs))"
    using assms(1) sorted_list_of_set_sort_remdups [of "filter ?P cs"]
    by (simp add: distinct_remdups_id del: set_filter)
  moreover have "set (filter ?P cs) = set cs - {''RK'', ''Player'', ''Team'', ''Year''}"
    by (auto simp: priority_cols_def)
  ultimately have other: "sort (filter ?P cs) =
      sorted_list_of_set (set cs - {''RK'', ''Player'', ''Team'', ''Year''})"
    by simp
  have keep: "filter (\<lambda>col. col \<in> set cs)
        (sorted_list_of_set (set cs - {''RK'', ''Player'', ''Team'', ''Year''})) =
      sorted_list_of_set (set cs - {''RK'', ''Player'', ''Team'', ''Year''})"
    by (simp add: filter_id_conv)
  show ?thesis
    unfolding column_order_of_def Let_def other
    using assms(2) by (simp add: priority_cols_def keep)
qed

lemma read_existing_cases:
  "read_existing None = None"
  "empty_df ex \<Longrightarrow> read_existing (Some ex) = None"
  "\<not> empty_df ex \<Longrightarrow> read_existing (Some ex) = Some ex"
  by (auto simp: read_existing_def empty_df_def)

text \<open>
  C7. When source B merges records its extraction returned (at least one) into a persisted
  sheet \<open>ex\<close> that has rows and columns, the sheet it writes has the columns RK, Player,
  Team, then every other column of the new records or of \<open>ex\<close> except Year, sorted, then
  Year. With no persisted sheet, and with one that has no rows or no columns (a header-only
  sheet counts as absent, and its columns are not taken over), the order is the same with the
  columns of the new records alone.
\<close>

theorem column_order_B:
  assumes "scrape_data_B year p s = Inr df" and "\<not> empty_df df"
  shows "(\<not> empty_df ex \<longrightarrow>
            (\<exists>out. append_to_excel_B (Some ex) df = Inr (Some out) \<and>
               columns out =
                 [''RK'', ''Player'', ''Team''] @
                 sorted_list_of_set
                   ((set (columns df) \<union> set (columns ex)) -
                    {''RK'', ''Player'', ''Team'', ''Year''}) @
                 [''Year''])) \<and>
         (empty_df ex \<longrightarrow>
            (\<exists>out. append_to_excel_B (Some ex) df = Inr (Some out) \<and>
               columns out =
                 [''RK'', ''Player'', ''Team''] @
                 sorted_list_of_set (set (columns df) - {''RK'', ''Player'', ''Team'', ''Year''}) @
                 [''Year''])) \<and>
         (\<exists>out. append_to_excel_B None df = Inr (Some out) \<and>
            columns out =
              [''RK'', ''Player'', ''Team''] @
              sorted_list_of_set (set (columns df) - {''RK'', ''Player'', ''Team'', ''Year''}) @
              [''Year''])"
proof -
  note frame = scrape_data_B_frame [OF assms(1)]
  note keys = frame(3) [OF assms(2)]
  have alone: "column_order_of (columns df) =
      [''RK'', ''Player'', ''Team''] @
      sorted_list_of_set (set (columns df) - {''RK'', ''Player'', ''Team'', ''Year''}) @
      [''Year'']"
    by (rule column_order_of_spec [OF frame(1) keys])
  have both: "column_order_of (sort (remdups (columns df @ columns ex))) =
      [''RK'', ''Player'', ''Team''] @
      sorted_list_of_set
        ((set (columns df) \<union> set (columns ex)) - {''RK'', ''Player'', ''Team'', ''Year''}) @
      [''Year'']"
    using column_order_of_spec [of "sort (remdups (columns df @ columns ex))"] keys
    by auto
  have 1: "\<not> empty_df ex \<longrightarrow>
            (\<exists>out. append_to_excel_B (Some ex) df = Inr (Some out) \<and>
               columns out =
                 [''RK'', ''Player'', ''Team''] @
                 sorted_list_of_set
                   ((set (columns df) \<union> set (columns ex)) -
                    {''RK'', ''Player'', ''Team'', ''Year''}) @
                 [''Year''])"
    using append_to_excel_B_columns [OF assms(2), of "Some ex"] both
    by (auto simp: order_B_def read_existing_cases)
  have 2: "empty_df ex \<longrightarrow>
            (\<exists>out. append_to_excel_B (Some ex) df = Inr (Some out) \<and>
               columns out =
                 [''RK'', ''Player'', ''Team''] @
                 sorted_list_of_set (set (columns df) - {''RK'', ''Player'', ''Team'', ''Year''}) @
                 [''Year''])"
    using append_to_excel_B_columns [OF assms(2), of "Some ex"] alone
    by (auto simp: order_B_def read_existing_cases)
  have 3: "\<exists>out. append_to_excel_B None df = Inr (Some out) \<and>
            columns out =
              [''RK'', ''Player'', ''Team''] @
              sorted_list_of_set (set (columns df) - {''RK'', ''Player'', ''Team'', ''Year''}) @
              [''Year'']"
    using append_to_excel_B_columns [OF assms(2), of None] alone
    by (auto simp: order_B_def read_existing_cases)
  from 1 2 3 show ?thesis by (intro conjI)
qed

text \<open>
  The column order when the example page is merged into a sheet that has a PTS column the
  page lacks, and into no sheet.
\<close>

theorem column_order_B_witness:
  "\<exists>df out fresh. scrape_data_B 2024 still_page_B espn_page = Inr df \<and>
     append_to_excel_B (Some sheet_2022) df = Inr (Some out) \<and>
     columns out = [''RK'', ''Player'', ''Team'', ''GP'', ''POS'', ''PTS'', ''Year''] \<and>
     append_to_excel_B None df = Inr (Some fresh) \<and>
     columns fresh = [''RK'', ''Player'', ''Team'', ''GP'', ''POS'', ''Year'']"
proof -
  let ?df = "\<lparr>columns = [''RK'', ''Player'', ''Team'', ''POS'', ''GP'', ''Year''],
        rows =
          [[(''RK'', Str ''1''), (''Player'', Str ''Luka Doncic''), (''Team'', Str ''DAL''),
            (''POS'', Str ''PG''), (''GP'', Str ''70''), (''Year'', Num 2024)],
           [(''RK'', Str ''2''), (''Player'', Str ''Dennis Schroder''),
            (''Team'', Str ''TOR/BKN''), (''POS'', Str ''PG''), (''GP'', Str ''74''),
            (''Year'', Num 2024)]]\<rparr>"
  have 1: "scrape_data_B 2024 still_page_B espn_page = Inr ?df" by code_simp
  have 2: "\<not> empty_df ?df" by (simp add: empty_df_def)
  have 3: "\<not> empty_df sheet_2022" by (simp add: empty_df_def sheet_2022_def)
  have 4: "sorted_list_of_set
         ((set (columns ?df) \<union> set (columns sheet_2022)) -
          {''RK'', ''Player'', ''Team'', ''Year''}) = [''GP'', ''POS'', ''PTS'']"
    by code_simp
  have 5: "sorted_list_of_set (set (columns ?df) - {''RK'', ''Player'', ''Team'', ''Year''}) =
      [''GP'', ''POS'']"
    by code_simp
  from column_order_B [OF 1 2, of sheet_2022] 1 3 show ?thesis
    unfolding 4 5 by auto
qed

end
